theory Spec2Isabelle
  imports Main
begin

section \<open>JavaScript values used by the stack mixin\<close>

text \<open>
  The embedding follows \<^verbatim>\<open>src/base/stack-mixin.js\<close>. Numbers are modelled as
  unbounded integers, \<^verbatim>\<open>undefined\<close> and \<^verbatim>\<open>NaN\<close> as \<open>None\<close>, and a runtime
  \<^verbatim>\<open>TypeError\<close> (reading a property of \<^verbatim>\<open>undefined\<close>) as the left summand of a sum.
\<close>

datatype js_error = TypeError

text \<open>An argument of a call: omitted or \<^verbatim>\<open>undefined\<close>, a string, or a function.\<close>

datatype 'f js_arg = Undefined | Str string | Fn 'f

text \<open>
  \<^verbatim>\<open>_hiddenStacks\<close> and \<^verbatim>\<open>_titles\<close> are created as \<^verbatim>\<open>{}\<close>: plain objects used as
  dictionaries. The own properties are a map. A read \<^verbatim>\<open>obj[k]\<close> of a key that is not an own
  property continues in \<^verbatim>\<open>Object.prototype\<close>, whose members are all truthy (functions, and
  the prototype object itself for \<^verbatim>\<open>__proto__\<close>). A write \<^verbatim>\<open>obj['__proto__'] = v\<close> runs the
  inherited setter, which creates no own property and ignores a \<open>v\<close> that is not an object.
\<close>

definition Object_prototype_keys :: "string list" where
  "Object_prototype_keys =
     [''constructor'', ''__defineGetter__'', ''__defineSetter__'', ''hasOwnProperty'',
      ''__lookupGetter__'', ''__lookupSetter__'', ''isPrototypeOf'', ''propertyIsEnumerable'',
      ''toString'', ''valueOf'', ''__proto__'', ''toLocaleString'']"

definition inherited :: "string \<Rightarrow> bool" where
  "inherited k = (k \<in> set Object_prototype_keys)"

text \<open>\<^verbatim>\<open>obj[k] = b\<close> for a boolean \<open>b\<close>.\<close>

definition assign_bool :: "(string \<rightharpoonup> bool) \<Rightarrow> string \<Rightarrow> bool \<Rightarrow> (string \<rightharpoonup> bool)" where
  "assign_bool obj k b = (if k = ''__proto__'' then obj else obj(k \<mapsto> b))"

text \<open>The truthiness of \<^verbatim>\<open>obj[k]\<close> for an object whose own properties are booleans.\<close>

definition truthy_at :: "(string \<rightharpoonup> bool) \<Rightarrow> string \<Rightarrow> bool" where
  "truthy_at obj k =
     (if k = ''__proto__'' then True
      else case obj k of Some b \<Rightarrow> b | None \<Rightarrow> inherited k)"

text \<open>\<^verbatim>\<open>String(n)\<close> for a non-negative integer: its decimal digits.\<close>

definition digit_char :: "nat \<Rightarrow> char" where
  "digit_char d = ''0123456789'' ! d"

function String_of_nat :: "nat \<Rightarrow> string" where
  "String_of_nat n =
     (if n < 10 then [digit_char n] else String_of_nat (n div 10) @ [digit_char (n mod 10)])"
  by pat_completeness auto
termination
  by (relation "measure id") auto

declare String_of_nat.simps [simp del]

section \<open>Layers, points and the chart state\<close>

text \<open>
  A registry entry \<^verbatim>\<open>{group, name, accessor}\<close> of \<^verbatim>\<open>StackedDataAdaptor._stack\<close>. The group
  is represented by the rows its \<^verbatim>\<open>all()\<close> returns; an accessor maps \<^verbatim>\<open>(row, index)\<close> to a
  number.
\<close>

type_synonym 'r accessor = "'r \<Rightarrow> nat \<Rightarrow> int"

record 'r layer =
  l_group :: "'r list"
  l_name :: string
  l_accessor :: "'r accessor option"

text \<open>The point objects built by \<^verbatim>\<open>_prepareValues\<close>; \<open>y0\<close> and \<open>y1\<close> are absent until written.\<close>

record 'r point =
  pt_x :: int
  pt_y :: int
  pt_data :: 'r
  pt_name :: string
  pt_y0 :: "int option"
  pt_y1 :: "int option"

text \<open>
  Modelled from the spec: the state of the base classes of \<^verbatim>\<open>StackMixin\<close>
  (\<^verbatim>\<open>CoordinateGridMixin\<close> and its ancestors, which are not among the sources), as far as
  the mixin reads or writes it through their getters and setters: the shared key and value
  accessors, the domain of the x scale (\<open>None\<close> when \<^verbatim>\<open>x()\<close> is unset), the ordinal and
  elastic flags, the axis paddings, the colour provider, the chart-wide title, and the
  group and name recorded by the base \<^verbatim>\<open>group(g, n)\<close>. The recorded name matters only
  when it is a string (\<^verbatim>\<open>stackName === this._groupName\<close> in \<^verbatim>\<open>title\<close>).
\<close>

record ('r, 't, 'col) base_chart =
  keyAccessor :: "'r accessor"
  valueAccessor :: "'r accessor"
  x_domain :: "int list option"
  isOrdinal :: bool
  elasticX :: bool
  yAxisPadding :: int
  xAxisPadding :: int
  getColor :: "'r layer \<Rightarrow> nat \<Rightarrow> 'col"
  base_title :: 't
  base_group :: "'r list"
  groupName :: "string option"

text \<open>
  The chart state of \<^verbatim>\<open>StackMixin\<close>: the base state, extended by the instance fields set in
  the constructors of \<^verbatim>\<open>StackMixin\<close> and \<^verbatim>\<open>StackedDataAdaptor\<close> (\<open>dp_stack\<close> is
  \<^verbatim>\<open>_dataProvider._stack\<close>).
\<close>

record ('r, 't, 'col) chart = "('r, 't, 'col) base_chart" +
  dp_stack :: "'r layer list"
  titles :: "string \<rightharpoonup> 't"
  hidableStacks :: bool
  hiddenStacks :: "string \<rightharpoonup> bool"
  evadeDomainFilter :: bool

text \<open>
  Modelled from the spec: \<^verbatim>\<open>title()\<close> and \<^verbatim>\<open>title(f)\<close> of the base class, the getter and the
  setter of the single chart-wide title.
\<close>

definition super_title :: "('r, 't, 'col) chart \<Rightarrow> 't" where
  "super_title c = base_title c"

definition super_title_set :: "('r, 't, 'col) chart \<Rightarrow> 't \<Rightarrow> ('r, 't, 'col) chart" where
  "super_title_set c f = c\<lparr>base_title := f\<rparr>"

text \<open>
  Modelled from the spec: \<^verbatim>\<open>group(g, n)\<close> of the base class, which records the group and its
  name and touches nothing of the stack mixin's own state.
\<close>

definition super_group ::
  "('r, 't, 'col) chart \<Rightarrow> 'r list \<Rightarrow> 'f js_arg \<Rightarrow> ('r, 't, 'col) chart" where
  "super_group c g n =
     c\<lparr>base_group := g, groupName := (case n of Str s \<Rightarrow> Some s | _ \<Rightarrow> None)\<rparr>"

section \<open>Visibility\<close>

text \<open>\<^verbatim>\<open>hideStack\<close>: \<^verbatim>\<open>this._hiddenStacks[stackName] = true\<close>.\<close>

definition hideStack :: "('r, 't, 'col) chart \<Rightarrow> string \<Rightarrow> ('r, 't, 'col) chart" where
  "hideStack c stackName = c\<lparr>hiddenStacks := assign_bool (hiddenStacks c) stackName True\<rparr>"

text \<open>\<^verbatim>\<open>showStack\<close>: \<^verbatim>\<open>this._hiddenStacks[stackName] = false\<close>.\<close>

definition showStack :: "('r, 't, 'col) chart \<Rightarrow> string \<Rightarrow> ('r, 't, 'col) chart" where
  "showStack c stackName = c\<lparr>hiddenStacks := assign_bool (hiddenStacks c) stackName False\<rparr>"

text \<open>\<^verbatim>\<open>_visibility(l)\<close>: \<^verbatim>\<open>!this._hiddenStacks[l.name]\<close>, as a function of the name.\<close>

definition visibility :: "('r, 't, 'col) chart \<Rightarrow> string \<Rightarrow> bool" where
  "visibility c n = (\<not> truthy_at (hiddenStacks c) n)"

text \<open>An example state: a chart as constructed, with rows that are pairs of a key and a value.\<close>

definition fresh_chart :: "(int \<times> int, nat, nat) chart" where
  "fresh_chart =
     \<lparr>keyAccessor = (\<lambda>d i. fst d), valueAccessor = (\<lambda>d i. snd d),
      x_domain = None, isOrdinal = False, elasticX = False, yAxisPadding = 0,
      xAxisPadding = 0, getColor = (\<lambda>l i. i), base_title = 0, base_group = [],
      groupName = None,
      dp_stack = [], titles = Map.empty, hidableStacks = False, hiddenStacks = Map.empty,
      evadeDomainFilter = False\<rparr>"

section \<open>The layer registry\<close>

text \<open>The argument at position \<open>i\<close> of a call; a missing argument reads as \<^verbatim>\<open>undefined\<close>.\<close>

definition arg_at :: "'f js_arg list \<Rightarrow> nat \<Rightarrow> 'f js_arg" where
  "arg_at args i = (if i < length args then args ! i else Undefined)"

text \<open>
  \<^verbatim>\<open>StackedDataAdaptor.stack(group, name, accessor)\<close> called with at least one argument.
  \<open>rest\<close> holds the arguments after \<open>group\<close>, so \<^verbatim>\<open>arguments.length\<close> is \<open>1 + length rest\<close>.
  The result is the registry after the \<^verbatim>\<open>push\<close>.
\<close>

definition adaptor_stack ::
  "'r layer list \<Rightarrow> 'r list \<Rightarrow> 'r accessor js_arg list \<Rightarrow> 'r layer list" where
  "adaptor_stack reg g rest =
     (let name = arg_at rest 0;
          accessor = (if 1 + length rest \<le> 2 then name else arg_at rest 1)
      in reg @ [\<lparr>l_group = g,
                 l_name = (case name of Str s \<Rightarrow> s | _ \<Rightarrow> String_of_nat (length reg)),
                 l_accessor = (case accessor of Fn f \<Rightarrow> Some f | _ \<Rightarrow> None)\<rparr>])"

text \<open>\<^verbatim>\<open>StackedDataAdaptor.clearStack\<close>.\<close>

definition clearStack :: "('r, 't, 'col) chart \<Rightarrow> ('r, 't, 'col) chart" where
  "clearStack c = c\<lparr>dp_stack := []\<rparr>"

text \<open>
  \<^verbatim>\<open>StackMixin.stack(group, name, accessor)\<close> called with at least one argument: it always
  passes three arguments on to the adaptor.
\<close>

definition stack ::
  "('r, 't, 'col) chart \<Rightarrow> 'r list \<Rightarrow> 'r accessor js_arg \<Rightarrow> 'r accessor js_arg \<Rightarrow>
     ('r, 't, 'col) chart" where
  "stack c g name accessor = c\<lparr>dp_stack := adaptor_stack (dp_stack c) g [name, accessor]\<rparr>"

text \<open>
  \<^verbatim>\<open>StackMixin.group(g, n, f)\<close> called with at least one argument; \<open>f\<close> is \<open>None\<close> when it is
  omitted.
\<close>

definition group ::
  "('r, 't, 'col) chart \<Rightarrow> 'r list \<Rightarrow> 'r accessor js_arg \<Rightarrow> 'r accessor option \<Rightarrow>
     ('r, 't, 'col) chart" where
  "group c g n f =
     (let c1 = clearStack c;
          c2 = c1\<lparr>titles := Map.empty\<rparr>;
          c3 = stack c2 g n Undefined;
          c4 = (case f of Some h \<Rightarrow> c3\<lparr>valueAccessor := h\<rparr> | None \<Rightarrow> c3)
      in super_group c4 g n)"

section \<open>Titles\<close>

text \<open>
  What a read of \<^verbatim>\<open>this._titles[stackName]\<close> can produce besides \<^verbatim>\<open>undefined\<close>: a stored
  title function, or the member of \<^verbatim>\<open>Object.prototype\<close> of that name. Both are truthy.
\<close>

datatype 't title_value = TitleFn 't | Builtin string

definition titles_get :: "(string \<rightharpoonup> 't) \<Rightarrow> string \<Rightarrow> 't title_value option" where
  "titles_get obj k =
     (if k = ''__proto__'' then Some (Builtin k)
      else case obj k of
             Some f \<Rightarrow> Some (TitleFn f)
           | None \<Rightarrow> if inherited k then Some (Builtin k) else None)"

text \<open>
  The outcome of a call of \<^verbatim>\<open>title\<close>: a returned value, or \<^verbatim>\<open>this\<close> with the new state.
  Storing a function under \<^verbatim>\<open>__proto__\<close> replaces the prototype of \<^verbatim>\<open>_titles\<close>; what later
  reads inherit from that function is outside this model, and the outcome says so.
\<close>

datatype ('c, 't) title_result = Value "'t title_value" | This 'c | Reparented

text \<open>\<^verbatim>\<open>StackMixin.title(stackName, titleAccessor)\<close>.\<close>

definition title ::
  "('r, 't, 'col) chart \<Rightarrow> 't js_arg \<Rightarrow> 't js_arg \<Rightarrow> (('r, 't, 'col) chart, 't) title_result"
  where
  "title c stackName titleAccessor =
     (case stackName of
        Undefined \<Rightarrow> Value (TitleFn (super_title c))
      | Fn f \<Rightarrow> This (super_title_set c f)
      | Str s \<Rightarrow>
          if s = [] then Value (TitleFn (super_title c))
          else (case titleAccessor of
                  Fn f \<Rightarrow>
                    if groupName c = Some s then This (super_title_set c f)
                    else if s = ''__proto__'' then Reparented
                    else This (c\<lparr>titles := (titles c)(s \<mapsto> f)\<rparr>)
                | _ \<Rightarrow>
                    (case titles_get (titles c) s of
                       Some v \<Rightarrow> Value v
                     | None \<Rightarrow> Value (TitleFn (super_title c)))))"

section \<open>Legend entries\<close>

text \<open>An entry returned by \<^verbatim>\<open>legendables\<close> (without its back reference \<^verbatim>\<open>chart: this\<close>).\<close>

record 'col legendable =
  lg_name :: string
  lg_hidden :: bool
  lg_color :: 'col

definition legendables :: "('r, 't, 'col) chart \<Rightarrow> 'col legendable list" where
  "legendables c =
     map (\<lambda>(i, layer). \<lparr>lg_name = l_name layer,
                          lg_hidden = (\<not> visibility c (l_name layer)),
                          lg_color = getColor c layer i\<rparr>)
       (enumerate 0 (dp_stack c))"

section \<open>Point extraction and the domain filter\<close>

text \<open>An element of \<^verbatim>\<open>StackedDataAdaptor.data()\<close>.\<close>

record 'r stack_data =
  sd_name :: string
  sd_accessor :: "'r accessor option"
  rawData :: "'r list"

definition adaptor_data :: "'r layer list \<Rightarrow> 'r stack_data list" where
  "adaptor_data reg =
     map (\<lambda>layer. \<lparr>sd_name = l_name layer, sd_accessor = l_accessor layer,
                     rawData = l_group layer\<rparr>) reg"

text \<open>
  The same object after \<^verbatim>\<open>_prepareValues\<close>. The composition pass writes \<^verbatim>\<open>y0\<close> and \<^verbatim>\<open>y1\<close>
  into point objects that \<^verbatim>\<open>values\<close> and \<^verbatim>\<open>domainValues\<close> share, so the point objects of a
  layer live in a store, \<open>allValues\<close> (the array \<^verbatim>\<open>allValues\<close> of the source, addressed by
  position), and the two arrays hold addresses into it.
\<close>

record 'r stacked = "'r stack_data" +
  allValues :: "'r point list"
  domainValues :: "nat list"
  layer_values :: "nat list"

definition values_of :: "'r stacked \<Rightarrow> 'r point list" where
  "values_of layer = map (\<lambda>a. allValues layer ! a) (layer_values layer)"

definition domainValues_of :: "'r stacked \<Rightarrow> 'r point list" where
  "domainValues_of layer = map (\<lambda>a. allValues layer ! a) (domainValues layer)"

text \<open>The predicate returned by \<^verbatim>\<open>_domainFilter()\<close>, applied to a point.\<close>

definition domainFilter :: "('r, 't, 'col) chart \<Rightarrow> 'r point \<Rightarrow> bool" where
  "domainFilter c p =
     (case x_domain c of
        None \<Rightarrow> True
      | Some xDomain \<Rightarrow>
          if isOrdinal c then True
          else if elasticX c then True
          else (case xDomain of
                  [] \<Rightarrow> False
                | _ \<Rightarrow> pt_x p \<ge> hd xDomain \<and> pt_x p \<le> last xDomain))"

definition prepareValues :: "('r, 't, 'col) chart \<Rightarrow> 'r stack_data \<Rightarrow> 'r stacked" where
  "prepareValues c layer =
     (let valAccessor = (case sd_accessor layer of Some a \<Rightarrow> a | None \<Rightarrow> valueAccessor c);
          points = map (\<lambda>(i, d). \<lparr>pt_x = keyAccessor c d i, pt_y = valAccessor d i,
                                    pt_data = d, pt_name = sd_name layer,
                                    pt_y0 = None, pt_y1 = None\<rparr>)
                     (enumerate 0 (rawData layer));
          kept = filter (\<lambda>a. domainFilter c (points ! a)) [0..<length points]
      in \<lparr>sd_name = sd_name layer, sd_accessor = sd_accessor layer, rawData = rawData layer,
          allValues = points, domainValues = kept,
          layer_values = (if evadeDomainFilter c then [0..<length points] else kept)\<rparr>)"

section \<open>The stack layout\<close>

text \<open>
  The default layout \<^verbatim>\<open>stack()\<close> of d3-shape, with its default order and offset. A column
  is one element of \<^verbatim>\<open>v4data\<close>: an object with the key \<open>x\<close> and one key per layer name.
  d3 reads each value as \<^verbatim>\<open>+d[key]\<close> into a pair \<^verbatim>\<open>[0, value]\<close>; the offset then sets, for every
  series after the first, the lower end to the upper end of the series before it and adds
  it to the upper end (section 4.3 of the specification). A key missing from a column would
  read as \<^verbatim>\<open>NaN\<close>; the composition pass sets the key of every layer in every column before
  the layout runs (\<open>column_at_dom\<close> below), so the value given to a missing key is never
  used.
\<close>

type_synonym column = "string \<rightharpoonup> int"

definition stackValue :: "column \<Rightarrow> string \<Rightarrow> int" where
  "stackValue d key = (case d key of Some v \<Rightarrow> v | None \<Rightarrow> 0)"

fun offsetNone_from :: "(int \<times> int) list \<Rightarrow> (int \<times> int) list list \<Rightarrow> (int \<times> int) list list"
  where
  "offsetNone_from s0 [] = []"
| "offsetNone_from s0 (s1 # rest) =
     (let s1' = map2 (\<lambda>p0 p1. (snd p0, snd p1 + snd p0)) s0 s1
      in s1' # offsetNone_from s1' rest)"

definition offsetNone :: "(int \<times> int) list list \<Rightarrow> (int \<times> int) list list" where
  "offsetNone series = (case series of [] \<Rightarrow> [] | s0 # rest \<Rightarrow> s0 # offsetNone_from s0 rest)"

definition d3_stack :: "string list \<Rightarrow> column list \<Rightarrow> (int \<times> int) list list" where
  "d3_stack keys v4data =
     offsetNone (map (\<lambda>key. map (\<lambda>d. (0, stackValue d key)) v4data) keys)"

section \<open>The composition pass\<close>

text \<open>
  \<^verbatim>\<open>layers.forEach(layer => { col[layer.name] = layer.values[i].y; })\<close>. A layer with no
  point at index \<open>i\<close> makes \<^verbatim>\<open>layer.values[i]\<close> undefined, and reading its \<open>y\<close> throws.
\<close>

fun column_at :: "'r stacked list \<Rightarrow> nat \<Rightarrow> column \<Rightarrow> js_error + column" where
  "column_at [] i col = Inr col"
| "column_at (layer # rest) i col =
     (if i < length (layer_values layer)
      then column_at rest i
             (col(sd_name layer \<mapsto> pt_y (allValues layer ! (layer_values layer ! i))))
      else Inl TypeError)"

text \<open>\<^verbatim>\<open>layers[0].values.map((v, i) => ...)\<close>, over the indexed points of the first layer.\<close>

fun columns :: "'r stacked list \<Rightarrow> (nat \<times> 'r point) list \<Rightarrow> js_error + column list" where
  "columns layers [] = Inr []"
| "columns layers ((i, v) # rest) =
     (case column_at layers i [''x'' \<mapsto> pt_x v] of
        Inl e \<Rightarrow> Inl e
      | Inr col \<Rightarrow>
          (case columns layers rest of Inl e \<Rightarrow> Inl e | Inr cols \<Rightarrow> Inr (col # cols)))"

text \<open>
  \<^verbatim>\<open>series.forEach((ys, j) => { layers[i].values[j].y0 = ys[0]; layers[i].values[j].y1 = ys[1]; })\<close>,
  from index \<open>j\<close> on: the point object at the address \<^verbatim>\<open>values[j]\<close> is updated in the store.
\<close>

fun write_series :: "(int \<times> int) list \<Rightarrow> nat \<Rightarrow> 'r stacked \<Rightarrow> js_error + 'r stacked" where
  "write_series [] j layer = Inr layer"
| "write_series (ys # rest) j layer =
     (if j < length (layer_values layer)
      then write_series rest (Suc j)
             (layer\<lparr>allValues := (allValues layer)
                [layer_values layer ! j :=
                   (allValues layer ! (layer_values layer ! j))
                     \<lparr>pt_y0 := Some (fst ys), pt_y1 := Some (snd ys)\<rparr>]\<rparr>)
      else Inl TypeError)"

text \<open>\<^verbatim>\<open>v4result.forEach((series, i) => ...)\<close>: series \<open>i\<close> is written into layer \<open>i\<close>.\<close>

fun write_back :: "(int \<times> int) list list \<Rightarrow> 'r stacked list \<Rightarrow> js_error + 'r stacked list" where
  "write_back [] layers = Inr layers"
| "write_back (series # rest) [] = Inl TypeError"
| "write_back (series # rest) (layer # layers) =
     (case write_series series 0 layer of
        Inl e \<Rightarrow> Inl e
      | Inr layer' \<Rightarrow>
          (case write_back rest layers of Inl e \<Rightarrow> Inl e | Inr ls \<Rightarrow> Inr (layer' # ls)))"

text \<open>The callback installed by \<^verbatim>\<open>this.data(...)\<close> in the constructor; \<^verbatim>\<open>this.data()\<close> runs it.\<close>

definition data :: "('r, 't, 'col) chart \<Rightarrow> js_error + 'r stacked list" where
  "data c =
     (let visible = filter (\<lambda>l. visibility c (sd_name l)) (adaptor_data (dp_stack c))
      in if visible = [] then Inr []
         else
           (let layers = map (prepareValues c) visible
            in case columns layers (enumerate 0 (values_of (hd layers))) of
                 Inl e \<Rightarrow> Inl e
               | Inr v4data \<Rightarrow> write_back (d3_stack (map sd_name layers) v4data) layers))"

text \<open>
  The array \<^verbatim>\<open>layers\<close> of the callback once \<^verbatim>\<open>_prepareValues\<close> has run on each of its
  elements, and the offsets \<^verbatim>\<open>(y0, y1)\<close> carried by the points of a layer's \<^verbatim>\<open>values\<close>.
\<close>

definition visible_layers :: "('r, 't, 'col) chart \<Rightarrow> 'r stacked list" where
  "visible_layers c =
     map (prepareValues c) (filter (\<lambda>l. visibility c (sd_name l)) (adaptor_data (dp_stack c)))"

definition offsets_of :: "'r stacked \<Rightarrow> (int option \<times> int option) list" where
  "offsets_of layer = map (\<lambda>p. (pt_y0 p, pt_y1 p)) (values_of layer)"

section \<open>Axis extents\<close>

text \<open>
  \<^verbatim>\<open>min\<close> and \<^verbatim>\<open>max\<close> of d3-array with an accessor: values that are \<^verbatim>\<open>undefined\<close> or \<^verbatim>\<open>NaN\<close>
  are skipped, and the result is \<^verbatim>\<open>undefined\<close> when nothing is left. The step functions are
  the loop bodies: \<open>m\<close> is the running minimum or maximum.
\<close>

definition min_step :: "int option \<Rightarrow> int option \<Rightarrow> int option" where
  "min_step v m =
     (case v of
        None \<Rightarrow> m
      | Some w \<Rightarrow> (case m of None \<Rightarrow> Some w | Some m' \<Rightarrow> if m' > w then Some w else Some m'))"

definition d3_min :: "int option list \<Rightarrow> int option" where
  "d3_min vs = fold min_step vs None"

definition max_step :: "int option \<Rightarrow> int option \<Rightarrow> int option" where
  "max_step v m =
     (case v of
        None \<Rightarrow> m
      | Some w \<Rightarrow> (case m of None \<Rightarrow> Some w | Some m' \<Rightarrow> if m' < w then Some w else Some m'))"

definition d3_max :: "int option list \<Rightarrow> int option" where
  "d3_max vs = fold max_step vs None"

text \<open>
  Modelled from the spec: \<^verbatim>\<open>utils.add\<close> and \<^verbatim>\<open>utils.subtract\<close> of \<^verbatim>\<open>core/utils\<close>, which is
  not among the sources. For a numeric left operand and a numeric padding they are \<open>l + r\<close>
  and \<open>l - r\<close> (the padding unit only matters for dates); an undefined left operand gives
  a result that is not a number.
\<close>

definition utils_add :: "int option \<Rightarrow> int \<Rightarrow> int option" where
  "utils_add l r = map_option (\<lambda>v. v + r) l"

definition utils_subtract :: "int option \<Rightarrow> int \<Rightarrow> int option" where
  "utils_subtract l r = map_option (\<lambda>v. v - r) l"

text \<open>\<^verbatim>\<open>_flattenStack\<close>: the points of \<^verbatim>\<open>domainValues\<close> of every layer of \<^verbatim>\<open>this.data()\<close>.\<close>

definition flattenStack :: "('r, 't, 'col) chart \<Rightarrow> js_error + 'r point list" where
  "flattenStack c =
     (case data c of Inl e \<Rightarrow> Inl e | Inr layers \<Rightarrow> Inr (concat (map domainValues_of layers)))"

text \<open>
  The accessors of \<^verbatim>\<open>yAxisMin\<close> and \<^verbatim>\<open>yAxisMax\<close>:
  \<^verbatim>\<open>p => (p.y < 0) ? (p.y + p.y0) : p.y0\<close> and \<^verbatim>\<open>p => (p.y > 0) ? (p.y + p.y0) : p.y0\<close>.
\<close>

definition y_low :: "'r point \<Rightarrow> int option" where
  "y_low p = (if pt_y p < 0 then map_option (\<lambda>b. pt_y p + b) (pt_y0 p) else pt_y0 p)"

definition y_high :: "'r point \<Rightarrow> int option" where
  "y_high p = (if pt_y p > 0 then map_option (\<lambda>b. pt_y p + b) (pt_y0 p) else pt_y0 p)"

definition yAxisMin :: "('r, 't, 'col) chart \<Rightarrow> js_error + int option" where
  "yAxisMin c =
     (case flattenStack c of
        Inl e \<Rightarrow> Inl e
      | Inr ps \<Rightarrow> Inr (utils_subtract (d3_min (map y_low ps)) (yAxisPadding c)))"

definition yAxisMax :: "('r, 't, 'col) chart \<Rightarrow> js_error + int option" where
  "yAxisMax c =
     (case flattenStack c of
        Inl e \<Rightarrow> Inl e
      | Inr ps \<Rightarrow> Inr (utils_add (d3_max (map y_high ps)) (yAxisPadding c)))"

definition xAxisMin :: "('r, 't, 'col) chart \<Rightarrow> js_error + int option" where
  "xAxisMin c =
     (case flattenStack c of
        Inl e \<Rightarrow> Inl e
      | Inr ps \<Rightarrow> Inr (utils_subtract (d3_min (map (\<lambda>p. Some (pt_x p)) ps)) (xAxisPadding c)))"

definition xAxisMax :: "('r, 't, 'col) chart \<Rightarrow> js_error + int option" where
  "xAxisMax c =
     (case flattenStack c of
        Inl e \<Rightarrow> Inl e
      | Inr ps \<Rightarrow> Inr (utils_add (d3_max (map (\<lambda>p. Some (pt_x p)) ps)) (xAxisPadding c)))"

section \<open>Example charts\<close>

definition rows_A :: "(int \<times> int) list" where
  "rows_A = [(1, 10), (2, 20)]"

definition rows_B :: "(int \<times> int) list" where
  "rows_B = [(1, 5), (2, 15)]"

definition rows_wide :: "(int \<times> int) list" where
  "rows_wide = [(0, 3), (1, 10), (2, 20), (5, 1)]"

definition fixed_chart :: "(int \<times> int, nat, nat) chart" where
  "fixed_chart = fresh_chart\<lparr>x_domain := Some [1, 2]\<rparr>"

definition wide_layer :: "(int \<times> int) stack_data" where
  "wide_layer = \<lparr>sd_name = ''A'', sd_accessor = None, rawData = rows_wide\<rparr>"

definition hidden_chart :: "(int \<times> int, nat, nat) chart" where
  "hidden_chart = hideStack (stack fresh_chart rows_A (Str ''A'') Undefined) ''A''"

text \<open>
  The scenario of the specification: layers \<open>A\<close> and \<open>B\<close> over the keys 1 and 2 with the fixed
  domain \<open>[1, 2]\<close>; then charts whose second layer is longer or shorter than the first.
\<close>

definition two_layers :: "(int \<times> int, nat, nat) chart" where
  "two_layers =
     stack (stack fixed_chart rows_A (Str ''A'') Undefined) rows_B (Str ''B'') Undefined"




text \<open>
  A chart that keeps the points outside its domain \<open>[1, 2]\<close> in \<open>values\<close> (the evade flag is
  set), with negative values and non-zero paddings; a chart with four layers of which the
  second is hidden and the third is longer than the first; and a chart with nothing hidden
  whose first layer is named \<open>constructor\<close>.
\<close>

definition rows_mixed :: "(int \<times> int) list" where
  "rows_mixed = [(0, - 3), (1, 10), (2, - 20), (5, 1)]"

definition rows_tall :: "(int \<times> int) list" where
  "rows_tall = [(0, 4), (1, 5), (2, 15), (5, 100)]"

definition evading_chart :: "(int \<times> int, nat, nat) chart" where
  "evading_chart =
     stack (stack (fresh_chart\<lparr>x_domain := Some [1, 2], yAxisPadding := 2, xAxisPadding := 1,
                                evadeDomainFilter := True\<rparr>)
              rows_mixed (Str ''A'') Undefined)
       rows_tall (Str ''B'') Undefined"


definition inherited_name_chart :: "(int \<times> int, nat, nat) chart" where
  "inherited_name_chart =
     stack (stack fresh_chart rows_A (Str ''constructor'') Undefined) rows_B (Str ''B'') Undefined"

text \<open>The layers returned by a pass that completes (empty otherwise).\<close>

definition stacked_result :: "('r, 't, 'col) chart \<Rightarrow> 'r stacked list" where
  "stacked_result c = (case data c of Inl e \<Rightarrow> [] | Inr layers \<Rightarrow> layers)"

section \<open>Properties of the visibility set\<close>

lemma assign_bool_twice: "assign_bool (assign_bool obj k b) k b' = assign_bool obj k b'"
  by (simp add: assign_bool_def)

lemma truthy_at_assign_bool:
  "truthy_at (assign_bool obj k b) k' =
     (if k' = k \<and> k \<noteq> ''__proto__'' then b else truthy_at obj k')"
  by (simp add: truthy_at_def assign_bool_def)

text \<open>
  C8, as stated, at a chart in which \<open>a\<close> is already hidden: hiding and then showing \<open>a\<close>
  leaves \<open>a\<close> visible, which is not the visibility the chart started with.
\<close>

theorem hide_show_not_restoring:
  "\<not> visibility (hideStack fresh_chart ''a'') ''a'' \<and>
   visibility (showStack (hideStack (hideStack fresh_chart ''a'') ''a'') ''a'') ''a''"
  by (simp add: visibility_def hideStack_def showStack_def truthy_at_def assign_bool_def
      fresh_chart_def)

text \<open>
  C8 (amended): hiding a name twice gives the same state as hiding it once. Hiding and then
  showing a name \<open>n\<close> other than \<open>__proto__\<close> makes \<open>n\<close> visible and changes the visibility
  of no other name, so it restores the original visibility exactly when \<open>n\<close> was visible
  before. A name that is absent from the visibility set and is not the name of a member
  inherited from \<open>Object.prototype\<close> is visible.
\<close>

theorem hide_show_visibility:
  "hideStack (hideStack c n) n = hideStack c n \<and>
   (n \<noteq> ''__proto__'' \<longrightarrow>
      visibility (showStack (hideStack c n) n) = (visibility c)(n := True)) \<and>
   (visibility c n \<longrightarrow> visibility (showStack (hideStack c n) n) = visibility c) \<and>
   (n \<notin> dom (hiddenStacks c) \<and> \<not> inherited n \<longrightarrow> visibility c n)"
proof -
  have twice: "hideStack (hideStack c n) n = hideStack c n"
    by (simp add: hideStack_def assign_bool_twice)
  have after: "visibility (showStack (hideStack c n) n) k =
      (if k = n \<and> n \<noteq> ''__proto__'' then True else visibility c k)" for k
    by (simp add: visibility_def hideStack_def showStack_def truthy_at_assign_bool)
  have shown: "n \<noteq> ''__proto__'' \<longrightarrow>
      visibility (showStack (hideStack c n) n) = (visibility c)(n := True)"
    using after by (auto simp: fun_eq_iff)
  have restore: "visibility c n \<longrightarrow> visibility (showStack (hideStack c n) n) = visibility c"
    using after by (auto simp: fun_eq_iff)
  have absent: "n \<notin> dom (hiddenStacks c) \<and> \<not> inherited n \<longrightarrow> visibility c n"
    by (auto simp: visibility_def truthy_at_def inherited_def Object_prototype_keys_def domIff)
  from twice shown restore absent show ?thesis by blast
qed

theorem hide_show_visibility_witness:
  "''b'' \<noteq> ''__proto__'' \<and> visibility fresh_chart ''b'' \<and>
   ''b'' \<notin> dom (hiddenStacks fresh_chart) \<and> \<not> inherited ''b'' \<and>
   hideStack (hideStack fresh_chart ''b'') ''b'' = hideStack fresh_chart ''b'' \<and>
   visibility (showStack (hideStack fresh_chart ''b'') ''b'') = visibility fresh_chart"
proof -
  have name: "''b'' \<noteq> ''__proto__''"
    by simp
  have own: "''b'' \<notin> dom (hiddenStacks fresh_chart)"
    by (simp add: fresh_chart_def)
  have inh: "\<not> inherited ''b''"
    by (simp add: inherited_def Object_prototype_keys_def)
  have vis: "visibility fresh_chart ''b''"
    using own inh hide_show_visibility [of fresh_chart "''b''"] by blast
  show ?thesis
    using name own inh vis hide_show_visibility [of fresh_chart "''b''"] by blast
qed

text \<open>
  A name that \<^verbatim>\<open>{}\<close> inherits is hidden although the visibility set does not hold it, until
  \<^verbatim>\<open>showStack\<close> stores \<open>false\<close> under it.
\<close>

lemma inherited_name_hidden:
  "\<not> visibility fresh_chart ''constructor'' \<and>
   visibility (showStack fresh_chart ''constructor'') ''constructor''"
  by (simp add: visibility_def showStack_def truthy_at_def assign_bool_def inherited_def
      Object_prototype_keys_def fresh_chart_def)

section \<open>Properties of the registry\<close>

lemma String_of_nat_small: "n < 10 \<Longrightarrow> String_of_nat n = [digit_char n]"
  by (simp add: String_of_nat.simps)

lemma adaptor_stack_length: "length (adaptor_stack reg g rest) = Suc (length reg)"
  by (simp add: adaptor_stack_def Let_def)

lemma adaptor_stack_keeps: "i < length reg \<Longrightarrow> adaptor_stack reg g rest ! i = reg ! i"
  by (simp add: adaptor_stack_def Let_def nth_append)

lemma adaptor_stack_default_name:
  "\<forall>s. arg_at rest 0 \<noteq> Str s \<Longrightarrow>
     l_name (last (adaptor_stack reg g rest)) = String_of_nat (length reg)"
  by (cases "arg_at rest 0") (simp_all add: adaptor_stack_def Let_def)

text \<open>
  C7: without a string name the new layer is named by the registry length before the push
  (\<open>adaptor_stack_default_name\<close>), and earlier layers are kept as they are. The names do not
  stay unique, though: an explicit name \<open>1\<close> followed by an unnamed layer gives two layers
  named \<open>1\<close>, with no rejection and no renaming.
\<close>

theorem stack_names_collide:
  "map l_name (adaptor_stack (adaptor_stack [] [(1::int, 10::int)] [Str ''1'']) [(1, 5)] [])
     = [''1'', ''1'']"
  by (simp add: adaptor_stack_def arg_at_def String_of_nat_small digit_char_def)

lemma visibility_group: "visibility (group c g n f) = visibility c"
  by (auto simp: fun_eq_iff visibility_def group_def super_group_def stack_def clearStack_def Let_def split: option.splits)

text \<open>
  C10: \<^verbatim>\<open>group(g, n, f)\<close> leaves exactly one layer in the registry, the new group under the
  name \<open>n\<close> (or \<open>0\<close> when \<open>n\<close> is not a string) and without a layer accessor, removes every
  per-layer title, installs \<open>f\<close>, when given, as the shared value accessor, and leaves the
  visibility set as it was: a name that was hidden is still hidden, so that a new group
  attached under such a name is not composed.
\<close>

theorem group_replaces_registry:
  "dp_stack (group c g n f) =
     [\<lparr>l_group = g, l_name = (case n of Str s \<Rightarrow> s | _ \<Rightarrow> ''0''), l_accessor = None\<rparr>] \<and>
   titles (group c g n f) = Map.empty \<and>
   valueAccessor (group c g n f) = (case f of Some h \<Rightarrow> h | None \<Rightarrow> valueAccessor c) \<and>
   hiddenStacks (group c g n f) = hiddenStacks c \<and>
   visibility (group c g n f) = visibility c \<and>
   (\<forall>s. \<not> visibility c s \<longrightarrow> data (group c g (Str s) f) = Inr [])"
proof -
  have reg: "dp_stack (group c g n f) =
     [\<lparr>l_group = g, l_name = (case n of Str s \<Rightarrow> s | _ \<Rightarrow> ''0''), l_accessor = None\<rparr>]" for n
    by (cases n; cases f)
      (simp_all add: group_def super_group_def stack_def clearStack_def adaptor_stack_def
        arg_at_def Let_def String_of_nat_small digit_char_def)
  have tit: "titles (group c g n f) = Map.empty"
    by (cases f) (simp_all add: group_def super_group_def stack_def clearStack_def Let_def)
  have acc: "valueAccessor (group c g n f) = (case f of Some h \<Rightarrow> h | None \<Rightarrow> valueAccessor c)"
    by (cases f) (simp_all add: group_def super_group_def stack_def clearStack_def Let_def)
  have hid: "hiddenStacks (group c g n f) = hiddenStacks c"
    by (cases f) (simp_all add: group_def super_group_def stack_def clearStack_def Let_def)
  have gone: "data (group c g (Str s) f) = Inr []" if "\<not> visibility c s" for s
    using that reg [of "Str s"] visibility_group [of c g "Str s" f]
    by (simp add: data_def adaptor_data_def)
  from reg tit acc hid visibility_group gone show ?thesis by blast
qed

theorem group_replaces_registry_witness:
  "\<not> visibility (hideStack fresh_chart ''A'') ''A'' \<and>
   map l_name (dp_stack (group (hideStack fresh_chart ''A'') rows_A (Str ''A'') None)) = [''A''] \<and>
   data (group (hideStack fresh_chart ''A'') rows_A (Str ''A'') None) = Inr []"
proof -
  have hid: "\<not> visibility (hideStack fresh_chart ''A'') ''A''"
    by (simp add: hideStack_def visibility_def truthy_at_def assign_bool_def)
  note g = group_replaces_registry [of "hideStack fresh_chart ''A''" rows_A "Str ''A''" None]
  from g have reg: "map l_name (dp_stack (group (hideStack fresh_chart ''A'') rows_A (Str ''A'') None)) = [''A'']"
    by simp
  from g hid have "data (group (hideStack fresh_chart ''A'') rows_A (Str ''A'') None) = Inr []"
    by blast
  with hid reg show ?thesis by blast
qed

section \<open>Properties of the title lookup\<close>

lemma title_lookup_default:
  "s \<noteq> [] \<Longrightarrow> titles c s = None \<Longrightarrow> \<not> inherited s \<Longrightarrow>
     title c (Str s) Undefined = Value (TitleFn (super_title c))"
  by (auto simp: title_def titles_get_def inherited_def Object_prototype_keys_def)

lemma title_function_first:
  "title c (Fn f) a = This (super_title_set c f) \<and> super_title (super_title_set c f) = f \<and>
   titles (super_title_set c f) = titles c"
  by (simp add: title_def super_title_def super_title_set_def)

text \<open>
  C9: a function as first argument replaces the chart-wide title (\<open>title_function_first\<close>),
  and a lookup never fails. A lookup of a name without a per-layer title returns the
  chart-wide title for every name that \<^verbatim>\<open>{}\<close> does not inherit (\<open>title_lookup_default\<close>).
  For an inherited name it does not: on a chart as constructed, \<^verbatim>\<open>title('constructor')\<close>
  returns the inherited \<^verbatim>\<open>Object.prototype.constructor\<close>, not the chart-wide title.
\<close>

theorem title_inherited_name:
  "title fresh_chart (Str ''constructor'') Undefined = Value (Builtin ''constructor'') \<and>
   title fresh_chart (Str ''constructor'') Undefined \<noteq> Value (TitleFn (super_title fresh_chart))"
  by (simp add: title_def titles_get_def inherited_def Object_prototype_keys_def fresh_chart_def)

section \<open>Properties of point extraction\<close>

lemma map_nth_filter_upt:
  "map (\<lambda>a. xs ! a) (filter (\<lambda>a. P (xs ! a)) [0..<length xs]) = filter P xs"
proof -
  have "filter P (map (\<lambda>a. xs ! a) [0..<length xs]) =
        map (\<lambda>a. xs ! a) (filter (P \<circ> (\<lambda>a. xs ! a)) [0..<length xs])"
    by (rule filter_map)
  then show ?thesis by (simp add: map_nth comp_def)
qed

lemma length_allValues_prepareValues:
  "length (allValues (prepareValues c layer)) = length (rawData layer)"
  by (simp add: prepareValues_def Let_def)

lemma nth_allValues_prepareValues:
  assumes "i < length (rawData layer)"
  shows "allValues (prepareValues c layer) ! i =
     \<lparr>pt_x = keyAccessor c (rawData layer ! i) i,
      pt_y = (case sd_accessor layer of Some a \<Rightarrow> a | None \<Rightarrow> valueAccessor c) (rawData layer ! i) i,
      pt_data = rawData layer ! i, pt_name = sd_name layer, pt_y0 = None, pt_y1 = None\<rparr>"
  using assms by (simp add: prepareValues_def Let_def nth_enumerate_eq)

lemma domainValues_prepareValues:
  "domainValues (prepareValues c layer) =
     filter (\<lambda>a. domainFilter c (allValues (prepareValues c layer) ! a))
       [0..<length (allValues (prepareValues c layer))]"
  by (simp add: prepareValues_def Let_def)

lemma layer_values_prepareValues:
  "layer_values (prepareValues c layer) =
     (if evadeDomainFilter c then [0..<length (allValues (prepareValues c layer))]
      else domainValues (prepareValues c layer))"
  by (simp add: prepareValues_def Let_def)

lemma domainValues_of_prepareValues:
  "domainValues_of (prepareValues c layer) =
     filter (domainFilter c) (allValues (prepareValues c layer))"
  unfolding domainValues_of_def domainValues_prepareValues by (rule map_nth_filter_upt)

lemma values_of_prepareValues:
  "values_of (prepareValues c layer) =
     (if evadeDomainFilter c then allValues (prepareValues c layer)
      else domainValues_of (prepareValues c layer))"
  unfolding values_of_def domainValues_of_def layer_values_prepareValues
  by (simp add: map_nth)

text \<open>
  C4: \<^verbatim>\<open>_prepareValues\<close> maps row \<open>i\<close> to the point with the key function's \<open>x\<close>, the
  \<open>y\<close> of the layer's accessor (the shared value accessor when the layer has none), the row
  and the layer name. \<open>domainValues\<close> keeps, in order, the points with
  \<open>domainMin \<le> x \<le> domainMax\<close> for a fixed numeric domain, and all points for an ordinal
  or an elastic domain. \<open>values\<close> is the full point list when the evade flag is set and
  \<open>domainValues\<close> otherwise.
\<close>

theorem prepareValues_lists:
  "length (allValues (prepareValues c layer)) = length (rawData layer) \<and>
   (\<forall>i < length (rawData layer).
      allValues (prepareValues c layer) ! i =
        \<lparr>pt_x = keyAccessor c (rawData layer ! i) i,
         pt_y = (case sd_accessor layer of Some a \<Rightarrow> a | None \<Rightarrow> valueAccessor c)
                  (rawData layer ! i) i,
         pt_data = rawData layer ! i, pt_name = sd_name layer,
         pt_y0 = None, pt_y1 = None\<rparr>) \<and>
   (\<forall>xDomain. x_domain c = Some xDomain \<and> xDomain \<noteq> [] \<and> \<not> isOrdinal c \<and> \<not> elasticX c \<longrightarrow>
      domainValues_of (prepareValues c layer) =
        filter (\<lambda>p. hd xDomain \<le> pt_x p \<and> pt_x p \<le> last xDomain)
          (allValues (prepareValues c layer))) \<and>
   (isOrdinal c \<longrightarrow> domainValues_of (prepareValues c layer) = allValues (prepareValues c layer)) \<and>
   (elasticX c \<longrightarrow> domainValues_of (prepareValues c layer) = allValues (prepareValues c layer)) \<and>
   values_of (prepareValues c layer) =
     (if evadeDomainFilter c then allValues (prepareValues c layer)
      else domainValues_of (prepareValues c layer))"
proof -
  have fixed: "domainValues_of (prepareValues c layer) =
        filter (\<lambda>p. hd xDomain \<le> pt_x p \<and> pt_x p \<le> last xDomain)
          (allValues (prepareValues c layer))"
    if "x_domain c = Some xDomain" "xDomain \<noteq> []" "\<not> isOrdinal c" "\<not> elasticX c" for xDomain
  proof -
    have "domainFilter c = (\<lambda>p. hd xDomain \<le> pt_x p \<and> pt_x p \<le> last xDomain)"
      using that by (auto simp: domainFilter_def fun_eq_iff split: list.splits)
    then show ?thesis by (simp add: domainValues_of_prepareValues)
  qed
  have ordinal: "domainValues_of (prepareValues c layer) = allValues (prepareValues c layer)"
    if "isOrdinal c"
  proof -
    have "domainFilter c = (\<lambda>p. True)"
      using that by (auto simp: domainFilter_def fun_eq_iff split: option.splits)
    then show ?thesis by (simp add: domainValues_of_prepareValues)
  qed
  have elastic: "domainValues_of (prepareValues c layer) = allValues (prepareValues c layer)"
    if "elasticX c"
  proof -
    have "domainFilter c = (\<lambda>p. True)"
      using that by (auto simp: domainFilter_def fun_eq_iff split: option.splits)
    then show ?thesis by (simp add: domainValues_of_prepareValues)
  qed
  from length_allValues_prepareValues nth_allValues_prepareValues fixed ordinal elastic
    values_of_prepareValues
  show ?thesis by blast
qed

lemma fixed_chart_simps:
  "x_domain fixed_chart = Some [1, 2]" "isOrdinal fixed_chart = False"
  "elasticX fixed_chart = False" "evadeDomainFilter fixed_chart = False"
  "keyAccessor fixed_chart = (\<lambda>d i. fst d)" "valueAccessor fixed_chart = (\<lambda>d i. snd d)"
  by (simp_all add: fixed_chart_def fresh_chart_def)

theorem prepareValues_lists_witness:
  "x_domain fixed_chart = Some [1, 2] \<and> [1, 2] \<noteq> ([] :: int list) \<and>
   \<not> isOrdinal fixed_chart \<and> \<not> elasticX fixed_chart \<and>
   (0::nat) < length (rawData wide_layer) \<and>
   pt_y (allValues (prepareValues fixed_chart wide_layer) ! 0) = 3 \<and>
   map pt_x (domainValues_of (prepareValues fixed_chart wide_layer)) = [1, 2] \<and>
   map pt_x (values_of (prepareValues fixed_chart wide_layer)) = [1, 2] \<and>
   isOrdinal (fixed_chart\<lparr>isOrdinal := True\<rparr>) \<and>
   map pt_x (domainValues_of (prepareValues (fixed_chart\<lparr>isOrdinal := True\<rparr>) wide_layer))
     = [0, 1, 2, 5] \<and>
   elasticX (fixed_chart\<lparr>elasticX := True\<rparr>) \<and>
   map pt_x (domainValues_of (prepareValues (fixed_chart\<lparr>elasticX := True\<rparr>) wide_layer))
     = [0, 1, 2, 5]"
proof -
  have xs: "map pt_x (allValues (prepareValues c wide_layer)) = [0, 1, 2, 5]"
    if "keyAccessor c = (\<lambda>d i. fst d)" for c :: "(int \<times> int, nat, nat) chart"
    using that by (simp add: prepareValues_def wide_layer_def rows_wide_def Let_def)
  have len: "(0::nat) < length (rawData wide_layer)"
    by (simp add: wide_layer_def rows_wide_def)
  note fx = prepareValues_lists [of fixed_chart wide_layer]
  note od = prepareValues_lists [of "fixed_chart\<lparr>isOrdinal := True\<rparr>" wide_layer]
  note el = prepareValues_lists [of "fixed_chart\<lparr>elasticX := True\<rparr>" wide_layer]
  have p0: "pt_y (allValues (prepareValues fixed_chart wide_layer) ! 0) = 3"
    using fx len by (simp add: wide_layer_def rows_wide_def fixed_chart_simps)
  have dv: "domainValues_of (prepareValues fixed_chart wide_layer) =
        filter (\<lambda>p. hd [1, 2] \<le> pt_x p \<and> pt_x p \<le> last [1, 2])
          (allValues (prepareValues fixed_chart wide_layer))"
    using fx by (simp add: fixed_chart_simps)
  have "map pt_x (domainValues_of (prepareValues fixed_chart wide_layer)) =
        filter (\<lambda>x. hd [1, 2] \<le> x \<and> x \<le> last [1, 2])
          (map pt_x (allValues (prepareValues fixed_chart wide_layer)))"
    unfolding dv by (simp add: filter_map comp_def)
  then have dvx: "map pt_x (domainValues_of (prepareValues fixed_chart wide_layer)) = [1, 2]"
    by (simp add: xs fixed_chart_simps)
  have vs: "values_of (prepareValues fixed_chart wide_layer) =
        domainValues_of (prepareValues fixed_chart wide_layer)"
    using fx by (simp add: fixed_chart_simps)
  have odx: "map pt_x (domainValues_of (prepareValues (fixed_chart\<lparr>isOrdinal := True\<rparr>) wide_layer))
     = [0, 1, 2, 5]"
    using od by (simp add: xs fixed_chart_simps)
  have elx: "map pt_x (domainValues_of (prepareValues (fixed_chart\<lparr>elasticX := True\<rparr>) wide_layer))
     = [0, 1, 2, 5]"
    using el by (simp add: xs fixed_chart_simps)
  from len p0 dvx vs odx elx show ?thesis
    by (simp add: fixed_chart_simps)
qed

section \<open>The empty stack\<close>

lemma data_no_visible:
  assumes "\<forall>l \<in> set (dp_stack c). \<not> visibility c (l_name l)"
  shows "data c = Inr []"
proof -
  have "filter (\<lambda>l. visibility c (sd_name l)) (adaptor_data (dp_stack c)) = []"
    using assms by (auto simp: adaptor_data_def filter_empty_conv)
  then show ?thesis by (simp add: data_def)
qed

text \<open>
  C6: when the registry is empty or every registered layer is hidden, the composition pass
  returns the empty list without an error, and each of the four extents is not a number.
\<close>

theorem empty_stack_extents:
  assumes "\<forall>l \<in> set (dp_stack c). \<not> visibility c (l_name l)"
  shows "data c = Inr [] \<and> yAxisMin c = Inr None \<and> yAxisMax c = Inr None \<and>
         xAxisMin c = Inr None \<and> xAxisMax c = Inr None"
proof -
  have d: "data c = Inr []"
    using assms by (rule data_no_visible)
  then have f: "flattenStack c = Inr []"
    by (simp add: flattenStack_def)
  from d f show ?thesis
    by (simp add: yAxisMin_def yAxisMax_def xAxisMin_def xAxisMax_def d3_min_def d3_max_def
        utils_add_def utils_subtract_def)
qed

theorem empty_stack_extents_witness:
  "map l_name (dp_stack hidden_chart) = [''A''] \<and> \<not> visibility hidden_chart ''A'' \<and>
   data hidden_chart = Inr [] \<and> yAxisMin hidden_chart = Inr None \<and>
   yAxisMax hidden_chart = Inr None \<and> xAxisMin hidden_chart = Inr None \<and>
   xAxisMax hidden_chart = Inr None"
proof -
  have reg: "map l_name (dp_stack hidden_chart) = [''A'']"
    by (simp add: hidden_chart_def hideStack_def stack_def adaptor_stack_def arg_at_def
        fresh_chart_def)
  have hid: "\<not> visibility hidden_chart ''A''"
    by (simp add: hidden_chart_def hideStack_def stack_def visibility_def truthy_at_def
        assign_bool_def)
  have all: "\<forall>l \<in> set (dp_stack hidden_chart). \<not> visibility hidden_chart (l_name l)"
  proof
    fix l assume "l \<in> set (dp_stack hidden_chart)"
    then have "l_name l \<in> set (map l_name (dp_stack hidden_chart))" by simp
    with reg hid show "\<not> visibility hidden_chart (l_name l)" by simp
  qed
  from reg hid empty_stack_extents [OF all] show ?thesis by blast
qed

section \<open>Properties of the write-back\<close>

lemma js_error_TypeError: "(e :: js_error) = TypeError"
  by (cases e) simp

lemma write_series_fields:
  "write_series ys j l = Inr l' \<Longrightarrow>
     sd_name l' = sd_name l \<and> sd_accessor l' = sd_accessor l \<and> rawData l' = rawData l \<and>
     layer_values l' = layer_values l \<and> domainValues l' = domainValues l \<and>
     length (allValues l') = length (allValues l)"
  by (induction ys j l rule: write_series.induct) (auto split: if_splits)

lemma write_series_keeps:
  "write_series ys j l = Inr l' \<Longrightarrow>
     pt_x (allValues l' ! a) = pt_x (allValues l ! a) \<and>
     pt_y (allValues l' ! a) = pt_y (allValues l ! a) \<and>
     pt_data (allValues l' ! a) = pt_data (allValues l ! a) \<and>
     pt_name (allValues l' ! a) = pt_name (allValues l ! a)"
proof (induction ys j l rule: write_series.induct)
  case (1 j layer)
  then show ?case by simp
next
  case (2 ys rest j layer)
  then show ?case
    by (cases "a = layer_values layer ! j"; cases "a < length (allValues layer)")
       (auto simp: list_update_beyond not_less split: if_splits)
qed

lemma write_series_defined:
  "j + length ys \<le> length (layer_values l) \<Longrightarrow> \<exists>l'. write_series ys j l = Inr l'"
  by (induction ys j l rule: write_series.induct) auto

lemma write_series_nth:
  assumes "write_series ys j l = Inr l'"
      and "distinct (layer_values l)"
      and "\<forall>a \<in> set (layer_values l). a < length (allValues l)"
      and "k < length (layer_values l)"
  shows "allValues l' ! (layer_values l ! k) =
     (if j \<le> k \<and> k < j + length ys
      then (allValues l ! (layer_values l ! k))
             \<lparr>pt_y0 := Some (fst (ys ! (k - j))), pt_y1 := Some (snd (ys ! (k - j)))\<rparr>
      else allValues l ! (layer_values l ! k))"
  using assms
proof (induction ys j l rule: write_series.induct)
  case (1 j layer)
  then show ?case by auto
next
  case (2 ys rest j layer)
  let ?a = "layer_values layer ! j"
  let ?l1 = "layer\<lparr>allValues := (allValues layer)
                [?a := (allValues layer ! ?a)\<lparr>pt_y0 := Some (fst ys), pt_y1 := Some (snd ys)\<rparr>]\<rparr>"
  from "2.prems"(1) have j: "j < length (layer_values layer)"
    and w: "write_series rest (Suc j) ?l1 = Inr l'"
    by (auto split: if_splits)
  from j "2.prems"(3) have aj: "?a < length (allValues layer)"
    by simp
  have ih: "allValues l' ! (layer_values layer ! k) =
     (if Suc j \<le> k \<and> k < Suc j + length rest
      then (allValues ?l1 ! (layer_values layer ! k))
             \<lparr>pt_y0 := Some (fst (rest ! (k - Suc j))), pt_y1 := Some (snd (rest ! (k - Suc j)))\<rparr>
      else allValues ?l1 ! (layer_values layer ! k))"
    using "2.IH" [OF j w] "2.prems"(2,3,4) by simp
  show ?case
  proof (cases "k = j")
    case True
    with ih aj show ?thesis by simp
  next
    case False
    with j "2.prems"(2,4) have ne: "layer_values layer ! k \<noteq> ?a"
      by (simp add: nth_eq_iff_index_eq)
    have old: "allValues ?l1 ! (layer_values layer ! k) = allValues layer ! (layer_values layer ! k)"
      using ne by simp
    show ?thesis
    proof (cases "Suc j \<le> k")
      case True
      then have "(ys # rest) ! (k - j) = rest ! (k - Suc j)"
        by (simp add: Suc_diff_le)
      with True ih old show ?thesis by simp
    next
      case False
      with \<open>k \<noteq> j\<close> have "k < j" by simp
      with ih old show ?thesis by simp
    qed
  qed
qed

lemma write_series_other:
  "write_series ys j l = Inr l' \<Longrightarrow> a \<notin> set (layer_values l) \<Longrightarrow>
     allValues l' ! a = allValues l ! a"
proof (induction ys j l rule: write_series.induct)
  case (1 j layer)
  then show ?case by simp
next
  case (2 ys rest j layer)
  from "2.prems"(1) have j: "j < length (layer_values layer)"
    by (auto split: if_splits)
  with "2.prems"(2) have "a \<noteq> layer_values layer ! j"
    by (metis nth_mem)
  with 2 j show ?case
    by (auto split: if_splits)
qed

lemma write_back_length: "write_back ss ls = Inr ls' \<Longrightarrow> length ls' = length ls"
  by (induction ss ls arbitrary: ls' rule: write_back.induct) (auto split: sum.splits)

lemma write_back_nth:
  "write_back ss ls = Inr ls' \<Longrightarrow> i < length ss \<Longrightarrow>
     i < length ls \<and> write_series (ss ! i) 0 (ls ! i) = Inr (ls' ! i)"
proof (induction ss ls arbitrary: ls' i rule: write_back.induct)
  case (3 series rest layer layers)
  then show ?case
    by (cases i) (auto split: sum.splits)
qed simp_all

lemma write_back_defined:
  "length ss = length ls \<Longrightarrow> \<forall>i < length ss. length (ss ! i) \<le> length (layer_values (ls ! i)) \<Longrightarrow>
     \<exists>ls'. write_back ss ls = Inr ls'"
proof (induction ss ls rule: write_back.induct)
  case (3 series rest layer layers)
  from "3.prems"(2) have "length series \<le> length (layer_values layer)"
    by auto
  then obtain layer' where w: "write_series series 0 layer = Inr layer'"
    using write_series_defined [of 0 series layer] by auto
  have "\<exists>ls'. write_back rest layers = Inr ls'"
  proof (rule "3.IH" [OF w])
    show "length rest = length layers" using "3.prems"(1) by simp
    show "\<forall>i<length rest. length (rest ! i) \<le> length (layer_values (layers ! i))"
      using "3.prems"(2) by auto
  qed
  with w show ?case by auto
qed simp_all

section \<open>Properties of the columns\<close>

lemma column_at_defined:
  "\<forall>l \<in> set ls. i < length (layer_values l) \<Longrightarrow> \<exists>col'. column_at ls i col = Inr col'"
  by (induction ls i col rule: column_at.induct) auto

lemma column_at_Inr_bound:
  "column_at ls i col = Inr col' \<Longrightarrow> l \<in> set ls \<Longrightarrow> i < length (layer_values l)"
  by (induction ls i col rule: column_at.induct) (auto split: if_splits)


lemma column_at_dom_mono:
  "column_at ls i col = Inr col' \<Longrightarrow> n \<in> dom col \<Longrightarrow> n \<in> dom col'"
  by (induction ls i col rule: column_at.induct) (auto split: if_splits)

lemma column_at_dom:
  "column_at ls i col = Inr col' \<Longrightarrow> l \<in> set ls \<Longrightarrow> sd_name l \<in> dom col'"
proof (induction ls i col rule: column_at.induct)
  case (1 i col)
  then show ?case by simp
next
  case (2 layer rest i col)
  from "2.prems"(1) have b: "i < length (layer_values layer)"
    and r: "column_at rest i (col(sd_name layer \<mapsto> pt_y (allValues layer ! (layer_values layer ! i)))) = Inr col'"
    by (auto split: if_splits)
  show ?case
  proof (cases "l = layer")
    case True
    then show ?thesis
      using column_at_dom_mono [OF r, of "sd_name layer"] by simp
  next
    case False
    with "2.prems"(2) have "l \<in> set rest" by simp
    with "2.IH" [OF b r] show ?thesis by simp
  qed
qed


lemma columns_length: "columns ls ips = Inr cols \<Longrightarrow> length cols = length ips"
  by (induction ls ips arbitrary: cols rule: columns.induct) (auto split: sum.splits)

lemma columns_nth:
  "columns ls ips = Inr cols \<Longrightarrow> k < length ips \<Longrightarrow>
     column_at ls (fst (ips ! k)) [''x'' \<mapsto> pt_x (snd (ips ! k))] = Inr (cols ! k)"
proof (induction ls ips arbitrary: cols k rule: columns.induct)
  case (1 layers)
  then show ?case by simp
next
  case (2 layers i v rest)
  from "2.prems"(1) obtain col cols' where
    c: "column_at layers i [''x'' \<mapsto> pt_x v] = Inr col" and
    r: "columns layers rest = Inr cols'" and
    e: "cols = col # cols'"
    by (auto split: sum.splits)
  show ?case
  proof (cases k)
    case 0
    with c e show ?thesis by (simp only: nth_Cons_0 fst_conv snd_conv)
  next
    case (Suc k')
    with "2.prems"(2) have "k' < length rest" by simp
    from "2.IH" [OF c r this] Suc e show ?thesis by (simp only: nth_Cons_Suc)
  qed
qed

lemma columns_defined:
  "\<forall>ip \<in> set ips. \<forall>l \<in> set ls. fst ip < length (layer_values l) \<Longrightarrow>
     \<exists>cols. columns ls ips = Inr cols"
proof (induction ls ips rule: columns.induct)
  case (1 layers)
  then show ?case by simp
next
  case (2 layers i v rest)
  from "2.prems" have "\<forall>l \<in> set layers. i < length (layer_values l)" by auto
  then obtain col where c: "column_at layers i [''x'' \<mapsto> pt_x v] = Inr col"
    using column_at_defined by blast
  from "2.prems" have "\<exists>cols. columns layers rest = Inr cols"
    by (intro "2.IH" [OF c]) auto
  with c show ?case by auto
qed

section \<open>Properties of the stack layout\<close>

lemma offsetNone_from_length: "length (offsetNone_from s0 ss) = length ss"
  by (induction ss arbitrary: s0) (simp_all add: Let_def)

lemma offsetNone_from_nth_length:
  "\<forall>s \<in> set ss. length s = length s0 \<Longrightarrow> i < length ss \<Longrightarrow>
     length (offsetNone_from s0 ss ! i) = length s0"
proof (induction ss arbitrary: s0 i)
  case Nil
  then show ?case by simp
next
  case (Cons s1 rest)
  let ?s1 = "map2 (\<lambda>p0 p1. (snd p0, snd p1 + snd p0)) s0 s1"
  have len: "length ?s1 = length s0" using Cons.prems(1) by simp
  show ?case
  proof (cases i)
    case 0
    with len show ?thesis by (simp add: Let_def)
  next
    case (Suc i')
    have "length (offsetNone_from ?s1 rest ! i') = length ?s1"
      using Cons.prems Suc len by (intro Cons.IH) auto
    with len Suc show ?thesis by (simp add: Let_def)
  qed
qed

lemma offsetNone_from_nth:
  "\<forall>s \<in> set ss. length s = length s0 \<Longrightarrow> i < length ss \<Longrightarrow> k < length s0 \<Longrightarrow>
     offsetNone_from s0 ss ! i ! k =
       (snd (s0 ! k) + (\<Sum>j<i. snd (ss ! j ! k)), snd (s0 ! k) + (\<Sum>j<Suc i. snd (ss ! j ! k)))"
proof (induction ss arbitrary: s0 i)
  case Nil
  then show ?case by simp
next
  case (Cons s1 rest)
  let ?s1 = "map2 (\<lambda>p0 p1. (snd p0, snd p1 + snd p0)) s0 s1"
  have len: "length ?s1 = length s0" using Cons.prems(1) by simp
  have l1: "length s1 = length s0" using Cons.prems(1) by simp
  have at: "?s1 ! k = (snd (s0 ! k), snd (s1 ! k) + snd (s0 ! k))"
    using Cons.prems(3) l1 by simp
  show ?case
  proof (cases i)
    case 0
    with at show ?thesis by (simp add: Let_def)
  next
    case (Suc i')
    have ih: "offsetNone_from ?s1 rest ! i' ! k =
       (snd (?s1 ! k) + (\<Sum>j<i'. snd (rest ! j ! k)),
        snd (?s1 ! k) + (\<Sum>j<Suc i'. snd (rest ! j ! k)))"
      using Cons.prems Suc len by (intro Cons.IH) auto
    have s1: "(\<Sum>j<Suc i'. snd ((s1 # rest) ! j ! k)) = snd (s1 ! k) + (\<Sum>j<i'. snd (rest ! j ! k))"
      by (simp add: sum.lessThan_Suc_shift del: sum.lessThan_Suc)
    have s2: "(\<Sum>j<Suc (Suc i'). snd ((s1 # rest) ! j ! k)) =
        snd (s1 ! k) + (\<Sum>j<Suc i'. snd (rest ! j ! k))"
      by (simp add: sum.lessThan_Suc_shift del: sum.lessThan_Suc)
    have "offsetNone_from s0 (s1 # rest) ! i ! k = offsetNone_from ?s1 rest ! i' ! k"
      using Suc by (simp add: Let_def)
    also note ih
    finally show ?thesis
      unfolding Suc s1 s2 at by (simp add: algebra_simps)
  qed
qed

lemma d3_stack_length: "length (d3_stack keys cols) = length keys"
  by (cases keys) (simp_all add: d3_stack_def offsetNone_def offsetNone_from_length)

lemma d3_stack_nth_length:
  assumes "i < length keys"
  shows "length (d3_stack keys cols ! i) = length cols"
proof (cases keys)
  case Nil
  with assms show ?thesis by simp
next
  case (Cons key rest)
  let ?ser = "\<lambda>key. map (\<lambda>d. (0::int, stackValue d key)) cols"
  have d: "d3_stack keys cols = ?ser key # offsetNone_from (?ser key) (map ?ser rest)"
    using Cons by (simp add: d3_stack_def offsetNone_def)
  show ?thesis
  proof (cases i)
    case 0
    with d show ?thesis by simp
  next
    case (Suc i')
    with assms Cons have "i' < length (map ?ser rest)" by simp
    then have "length (offsetNone_from (?ser key) (map ?ser rest) ! i') = length (?ser key)"
      by (intro offsetNone_from_nth_length) auto
    with d Suc show ?thesis by simp
  qed
qed

lemma d3_stack_nth:
  assumes "i < length keys" and "k < length cols"
  shows "d3_stack keys cols ! i ! k =
     ((\<Sum>j<i. stackValue (cols ! k) (keys ! j)), (\<Sum>j<Suc i. stackValue (cols ! k) (keys ! j)))"
proof (cases keys)
  case Nil
  with assms show ?thesis by simp
next
  case (Cons key rest)
  let ?ser = "\<lambda>key. map (\<lambda>d. (0::int, stackValue d key)) cols"
  have d: "d3_stack (key # rest) cols = ?ser key # offsetNone_from (?ser key) (map ?ser rest)"
    by (simp add: d3_stack_def offsetNone_def)
  show ?thesis
  proof (cases i)
    case 0
    with d assms show ?thesis unfolding Cons by simp
  next
    case (Suc i')
    with assms Cons have i': "i' < length (map ?ser rest)" by simp
    have "offsetNone_from (?ser key) (map ?ser rest) ! i' ! k =
       (snd (?ser key ! k) + (\<Sum>j<i'. snd (map ?ser rest ! j ! k)),
        snd (?ser key ! k) + (\<Sum>j<Suc i'. snd (map ?ser rest ! j ! k)))"
      using i' assms(2) by (intro offsetNone_from_nth) auto
    moreover have "(\<Sum>j<i'. snd (map ?ser rest ! j ! k)) = (\<Sum>j<i'. stackValue (cols ! k) (rest ! j))"
      using i' assms(2) by (intro sum.cong) auto
    moreover have "(\<Sum>j<Suc i'. snd (map ?ser rest ! j ! k)) =
        (\<Sum>j<Suc i'. stackValue (cols ! k) (rest ! j))"
      using i' assms(2) by (intro sum.cong) auto
    moreover have "(\<Sum>j<Suc i'. stackValue (cols ! k) ((key # rest) ! j)) =
        stackValue (cols ! k) key + (\<Sum>j<i'. stackValue (cols ! k) (rest ! j))"
      by (simp add: sum.lessThan_Suc_shift del: sum.lessThan_Suc)
    moreover have "(\<Sum>j<Suc (Suc i'). stackValue (cols ! k) ((key # rest) ! j)) =
        stackValue (cols ! k) key + (\<Sum>j<Suc i'. stackValue (cols ! k) (rest ! j))"
      by (simp add: sum.lessThan_Suc_shift del: sum.lessThan_Suc)
    ultimately show ?thesis
      unfolding Suc Cons d using assms(2) by (simp del: sum.lessThan_Suc)
  qed
qed

section \<open>Properties of the composition pass\<close>

lemma distinct_layer_values_prepareValues: "distinct (layer_values (prepareValues c l))"
  by (simp add: prepareValues_def Let_def)

lemma distinct_domainValues_prepareValues: "distinct (domainValues (prepareValues c l))"
  by (simp add: prepareValues_def Let_def)

lemma layer_values_prepareValues_bound:
  "a \<in> set (layer_values (prepareValues c l)) \<Longrightarrow> a < length (allValues (prepareValues c l))"
  by (auto simp: prepareValues_def Let_def split: if_splits)

lemma domainValues_subset_layer_values:
  "set (domainValues (prepareValues c l)) \<subseteq> set (layer_values (prepareValues c l))"
  by (auto simp: prepareValues_def Let_def)

lemma sd_name_prepareValues: "sd_name (prepareValues c l) = sd_name l"
  by (simp add: prepareValues_def Let_def)

lemma visible_layers_names:
  "map sd_name (visible_layers c) = filter (visibility c) (map l_name (dp_stack c))"
  by (simp add: visible_layers_def adaptor_data_def filter_map comp_def sd_name_prepareValues)

lemma visible_layers_invariant:
  assumes "l \<in> set (visible_layers c)"
  shows "distinct (layer_values l)" and "\<forall>a \<in> set (layer_values l). a < length (allValues l)"
    and "set (domainValues l) \<subseteq> set (layer_values l)"
  using assms
  by (auto simp: visible_layers_def distinct_layer_values_prepareValues
      dest: layer_values_prepareValues_bound subsetD [OF domainValues_subset_layer_values])

lemma data_empty: "visible_layers c = [] \<Longrightarrow> data c = Inr []"
  by (simp add: data_def visible_layers_def)

lemma data_nonempty:
  assumes "visible_layers c = first # rest"
  shows "data c =
     (case columns (first # rest) (enumerate 0 (values_of first)) of
        Inl e \<Rightarrow> Inl e
      | Inr v4data \<Rightarrow>
          write_back (d3_stack (map sd_name (first # rest)) v4data) (first # rest))"
proof -
  have ne: "filter (\<lambda>l. visibility c (sd_name l)) (adaptor_data (dp_stack c)) \<noteq> []"
    using assms by (auto simp: visible_layers_def)
  have "data c =
     (let layers = visible_layers c
      in case columns layers (enumerate 0 (values_of (hd layers))) of
           Inl e \<Rightarrow> Inl e
         | Inr v4data \<Rightarrow> write_back (d3_stack (map sd_name layers) v4data) layers)"
    using ne unfolding data_def visible_layers_def Let_def by simp
  then show ?thesis
    unfolding assms Let_def by simp
qed

lemma data_TypeError:
  assumes vis: "visible_layers c = first # rest"
      and short: "l \<in> set rest" "length (layer_values l) < length (layer_values first)"
  shows "data c = Inl TypeError"
proof (cases "columns (first # rest) (enumerate 0 (values_of first))")
  case (Inl e)
  then show ?thesis
    by (simp add: data_nonempty [OF vis] js_error_TypeError [of e])
next
  case (Inr cols)
  let ?k = "length (layer_values l)"
  have k: "?k < length (enumerate 0 (values_of first))"
    using short(2) by (simp add: values_of_def)
  have "fst (enumerate 0 (values_of first) ! ?k) = ?k"
    using k by (simp add: nth_enumerate_eq)
  with columns_nth [OF Inr k] obtain col0 where
    "column_at (first # rest) ?k col0 = Inr (cols ! ?k)"
    by metis
  from column_at_Inr_bound [OF this, of l] short(1) show ?thesis
    by simp
qed

lemma data_stacked:
  assumes vis: "visible_layers c = first # rest"
      and long: "\<forall>l \<in> set rest. length (layer_values first) \<le> length (layer_values l)"
  shows "\<exists>cols ls. columns (first # rest) (enumerate 0 (values_of first)) = Inr cols \<and>
           length cols = length (layer_values first) \<and>
           data c = Inr ls \<and> length ls = Suc (length rest) \<and>
           (\<forall>i < Suc (length rest).
              write_series (d3_stack (map sd_name (first # rest)) cols ! i) 0 ((first # rest) ! i)
                = Inr (ls ! i))"
proof -
  let ?layers = "first # rest"
  let ?ips = "enumerate 0 (values_of first)"
  have "\<forall>ip \<in> set ?ips. \<forall>l \<in> set ?layers. fst ip < length (layer_values l)"
    using long by (fastforce simp: in_set_enumerate_eq values_of_def)
  then obtain cols where cols: "columns ?layers ?ips = Inr cols"
    using columns_defined by blast
  have len: "length cols = length (layer_values first)"
    using columns_length [OF cols] by (simp add: values_of_def)
  let ?res = "d3_stack (map sd_name ?layers) cols"
  have rl: "length ?res = length ?layers"
    by (simp add: d3_stack_length)
  have "\<forall>i < length ?res. length (?res ! i) \<le> length (layer_values (?layers ! i))"
  proof (intro allI impI)
    fix i assume i: "i < length ?res"
    then have "length (?res ! i) = length cols"
      using rl by (intro d3_stack_nth_length) simp
    moreover have "length (layer_values first) \<le> length (layer_values (?layers ! i))"
      using long i rl by (cases i) auto
    ultimately show "length (?res ! i) \<le> length (layer_values (?layers ! i))"
      using len by simp
  qed
  with rl obtain ls where ls: "write_back ?res ?layers = Inr ls"
    using write_back_defined by blast
  have d: "data c = Inr ls"
    using cols ls by (simp add: data_nonempty [OF vis])
  have "\<forall>i < Suc (length rest). write_series (?res ! i) 0 (?layers ! i) = Inr (ls ! i)"
    using write_back_nth [OF ls] rl by simp
  with cols len d write_back_length [OF ls] show ?thesis
    by auto
qed


lemma data_stacked_values:
  assumes vis: "visible_layers c = first # rest"
      and long: "\<forall>l \<in> set rest. length (layer_values first) \<le> length (layer_values l)"
  shows "\<exists>cols ls. columns (first # rest) (enumerate 0 (values_of first)) = Inr cols \<and>
           data c = Inr ls \<and> length ls = Suc (length rest) \<and>
           (\<forall>i < Suc (length rest).
              sd_name (ls ! i) = sd_name ((first # rest) ! i) \<and>
              layer_values (ls ! i) = layer_values ((first # rest) ! i) \<and>
              domainValues (ls ! i) = domainValues ((first # rest) ! i) \<and>
              length (allValues (ls ! i)) = length (allValues ((first # rest) ! i)) \<and>
              (\<forall>k < length (layer_values ((first # rest) ! i)).
                 values_of (ls ! i) ! k =
                   (if k < length (layer_values first)
                    then (values_of ((first # rest) ! i) ! k)
                      \<lparr>pt_y0 := Some (\<Sum>j<i. stackValue (cols ! k) (map sd_name (first # rest) ! j)),
                       pt_y1 := Some (\<Sum>j<Suc i. stackValue (cols ! k) (map sd_name (first # rest) ! j))\<rparr>
                    else values_of ((first # rest) ! i) ! k)))"
proof -
  let ?layers = "first # rest"
  let ?names = "map sd_name ?layers"
  from data_stacked [OF vis long] obtain cols ls where
    cols: "columns ?layers (enumerate 0 (values_of first)) = Inr cols" and
    len: "length cols = length (layer_values first)" and
    d: "data c = Inr ls" and ll: "length ls = Suc (length rest)" and
    w: "\<forall>i < Suc (length rest).
          write_series (d3_stack ?names cols ! i) 0 (?layers ! i) = Inr (ls ! i)"
    by blast
  have "sd_name (ls ! i) = sd_name (?layers ! i) \<and>
        layer_values (ls ! i) = layer_values (?layers ! i) \<and>
        domainValues (ls ! i) = domainValues (?layers ! i) \<and>
        length (allValues (ls ! i)) = length (allValues (?layers ! i)) \<and>
        (\<forall>k < length (layer_values (?layers ! i)).
           values_of (ls ! i) ! k =
             (if k < length (layer_values first)
              then (values_of (?layers ! i) ! k)
                \<lparr>pt_y0 := Some (\<Sum>j<i. stackValue (cols ! k) (?names ! j)),
                 pt_y1 := Some (\<Sum>j<Suc i. stackValue (cols ! k) (?names ! j))\<rparr>
              else values_of (?layers ! i) ! k))"
    if i: "i < Suc (length rest)" for i
  proof -
    let ?l = "?layers ! i"
    let ?ys = "d3_stack ?names cols ! i"
    from w i have ws: "write_series ?ys 0 ?l = Inr (ls ! i)" by simp
    note f = write_series_fields [OF ws]
    have mem: "?l \<in> set (visible_layers c)"
      unfolding vis using i by (intro nth_mem) simp
    have ylen: "length ?ys = length (layer_values first)"
      using i len by (simp add: d3_stack_nth_length)
    have "values_of (ls ! i) ! k =
             (if k < length (layer_values first)
              then (values_of ?l ! k)
                \<lparr>pt_y0 := Some (\<Sum>j<i. stackValue (cols ! k) (?names ! j)),
                 pt_y1 := Some (\<Sum>j<Suc i. stackValue (cols ! k) (?names ! j))\<rparr>
              else values_of ?l ! k)"
      if k: "k < length (layer_values ?l)" for k
    proof -
      have n: "allValues (ls ! i) ! (layer_values ?l ! k) =
         (if 0 \<le> k \<and> k < 0 + length ?ys
          then (allValues ?l ! (layer_values ?l ! k))
                 \<lparr>pt_y0 := Some (fst (?ys ! (k - 0))), pt_y1 := Some (snd (?ys ! (k - 0)))\<rparr>
          else allValues ?l ! (layer_values ?l ! k))"
        using ws visible_layers_invariant(1,2) [OF mem] k by (rule write_series_nth)
      have v: "values_of (ls ! i) ! k = allValues (ls ! i) ! (layer_values ?l ! k)"
        "values_of ?l ! k = allValues ?l ! (layer_values ?l ! k)"
        using k f by (simp_all add: values_of_def)
      show ?thesis
      proof (cases "k < length (layer_values first)")
        case True
        then have "?ys ! k =
           ((\<Sum>j<i. stackValue (cols ! k) (?names ! j)),
            (\<Sum>j<Suc i. stackValue (cols ! k) (?names ! j)))"
          using i len by (intro d3_stack_nth) simp_all
        with True n v ylen show ?thesis by (simp del: sum.lessThan_Suc)
      next
        case False
        with n v ylen show ?thesis by simp
      qed
    qed
    with f show ?thesis by blast
  qed
  with cols d ll show ?thesis by blast
qed

lemma data_Inr_long:
  assumes vis: "visible_layers c = first # rest" and d: "data c = Inr ls"
  shows "\<forall>l \<in> set rest. length (layer_values first) \<le> length (layer_values l)"
proof (rule ccontr)
  assume "\<not> ?thesis"
  then obtain l where "l \<in> set rest" "length (layer_values l) < length (layer_values first)"
    by (auto simp: not_le)
  from data_TypeError [OF vis this] d show False by simp
qed

lemma data_names:
  assumes "data c = Inr ls"
  shows "map sd_name ls = filter (visibility c) (map l_name (dp_stack c))"
proof (cases "visible_layers c")
  case Nil
  with assms data_empty [OF Nil] visible_layers_names [of c] show ?thesis by simp
next
  case (Cons first rest)
  from data_stacked_values [OF Cons data_Inr_long [OF Cons assms]] assms
  have len: "length ls = Suc (length rest)"
    and n: "\<forall>i < Suc (length rest). sd_name (ls ! i) = sd_name ((first # rest) ! i)"
    by auto
  have "map sd_name ls = map sd_name (first # rest)"
  proof (rule nth_equalityI)
    show "length (map sd_name ls) = length (map sd_name (first # rest))"
      using len by simp
    fix i assume "i < length (map sd_name ls)"
    then have i: "i < Suc (length rest)" using len by simp
    then have "map sd_name ls ! i = sd_name (ls ! i)"
      "map sd_name (first # rest) ! i = sd_name ((first # rest) ! i)"
      using len by (simp_all only: nth_map length_Cons)
    with n i show "map sd_name ls ! i = map sd_name (first # rest) ! i"
      by simp
  qed
  with visible_layers_names [of c] Cons show ?thesis by simp
qed

lemma data_stacked_result: "\<not> isl (data c) \<Longrightarrow> data c = Inr (stacked_result c)"
  by (cases "data c") (simp_all add: stacked_result_def)

section \<open>Cumulative offsets\<close>



lemma data_result_length:
  assumes "data c = Inr ls"
  shows "length ls = length (visible_layers c)"
proof -
  have "length (map sd_name ls) = length (map sd_name (visible_layers c))"
    using data_names [OF assms] visible_layers_names [of c] by simp
  then show ?thesis by simp
qed





section \<open>Layers of different lengths\<close>





section \<open>Hidden layers\<close>

lemma visibility_dp_stack_update [simp]: "visibility (c\<lparr>dp_stack := reg\<rparr>) = visibility c"
  by (simp add: visibility_def fun_eq_iff)

lemma domainFilter_dp_stack_update [simp]: "domainFilter (c\<lparr>dp_stack := reg\<rparr>) = domainFilter c"
  by (simp add: domainFilter_def fun_eq_iff split: option.splits)

lemma prepareValues_dp_stack_update [simp]: "prepareValues (c\<lparr>dp_stack := reg\<rparr>) = prepareValues c"
  by (simp add: prepareValues_def fun_eq_iff Let_def split: option.splits)

lemma data_visible_registry:
  "data (c\<lparr>dp_stack := filter (\<lambda>l. visibility c (l_name l)) (dp_stack c)\<rparr>) = data c"
proof -
  have "filter (\<lambda>l. visibility c (sd_name l))
          (adaptor_data (filter (\<lambda>l. visibility c (l_name l)) (dp_stack c))) =
        filter (\<lambda>l. visibility c (sd_name l)) (adaptor_data (dp_stack c))"
    by (induction "dp_stack c" arbitrary: c) (simp_all add: adaptor_data_def filter_map comp_def)
  then show ?thesis
    by (simp add: data_def Let_def)
qed

lemma legendables_length: "length (legendables c) = length (dp_stack c)"
  by (simp add: legendables_def)

lemma legendables_nth:
  "i < length (dp_stack c) \<Longrightarrow>
     legendables c ! i =
       \<lparr>lg_name = l_name (dp_stack c ! i),
        lg_hidden = (\<not> visibility c (l_name (dp_stack c ! i))),
        lg_color = getColor c (dp_stack c ! i) i\<rparr>"
  by (simp add: legendables_def nth_enumerate_eq)

lemma hidden_layers_excluded:
  "data c = data (c\<lparr>dp_stack := filter (\<lambda>l. visibility c (l_name l)) (dp_stack c)\<rparr>) \<and>
   (\<forall>ls. data c = Inr ls \<longrightarrow>
      map sd_name ls = filter (visibility c) (map l_name (dp_stack c))) \<and>
   length (legendables c) = length (dp_stack c) \<and>
   (\<forall>i < length (dp_stack c).
      legendables c ! i =
        \<lparr>lg_name = l_name (dp_stack c ! i),
         lg_hidden = (\<not> visibility c (l_name (dp_stack c ! i))),
         lg_color = getColor c (dp_stack c ! i) i\<rparr>)"
  using data_visible_registry [of c] data_names [of c] legendables_length [of c]
    legendables_nth [of _ c]
  by simp

lemma visibility_own_flag:
  "\<not> inherited n \<Longrightarrow> visibility c n = (hiddenStacks c n \<noteq> Some True)"
  by (auto simp: visibility_def truthy_at_def inherited_def Object_prototype_keys_def
      split: option.splits)

text \<open>
  C3: the pass composes exactly the layers that \<^verbatim>\<open>_visibility\<close> lets through, and
  \<^verbatim>\<open>legendables()\<close> has one entry per registered layer, in registry order, with the layer's
  name, the colour of the colour provider and \<open>hidden\<close> set exactly when \<^verbatim>\<open>_visibility\<close>
  rejects the layer (\<open>hidden_layers_excluded\<close>). For a name that \<^verbatim>\<open>{}\<close> does not inherit,
  \<^verbatim>\<open>_visibility\<close> is the flag of the visibility set (\<open>visibility_own_flag\<close>). For an
  inherited name it is not: with the layers \<open>constructor\<close> and \<open>B\<close> registered and nothing
  hidden, the layer \<open>constructor\<close> is left out of the pass, so that \<open>B\<close> is stacked on 0, and
  the legend lists it with \<open>hidden: true\<close>.
\<close>

theorem inherited_name_layer_dropped:
  "dom (hiddenStacks inherited_name_chart) = {} \<and>
   map l_name (dp_stack inherited_name_chart) = [''constructor'', ''B''] \<and>
   map lg_name (legendables inherited_name_chart) = [''constructor'', ''B''] \<and>
   map lg_hidden (legendables inherited_name_chart) = [True, False] \<and>
   map_sum id (map sd_name) (data inherited_name_chart) = Inr [''B''] \<and>
   map_sum id (map offsets_of) (data inherited_name_chart) =
     Inr [[(Some 0, Some 5), (Some 0, Some 15)]]"
proof -
  have h: "dom (hiddenStacks inherited_name_chart) = {}"
    by (simp add: inherited_name_chart_def stack_def fresh_chart_def)
  have rest: "map l_name (dp_stack inherited_name_chart) = [''constructor'', ''B'']"
    "map lg_name (legendables inherited_name_chart) = [''constructor'', ''B'']"
    "map lg_hidden (legendables inherited_name_chart) = [True, False]"
    "map_sum id (map sd_name) (data inherited_name_chart) = Inr [''B'']"
    "map_sum id (map offsets_of) (data inherited_name_chart) =
       Inr [[(Some 0, Some 5), (Some 0, Some 15)]]"
    by code_simp+
  from h rest show ?thesis by (intro conjI)
qed

section \<open>Properties of the axis extents\<close>

lemma finite_defined: "finite {v. Some v \<in> set vs}"
proof -
  have "{v. Some v \<in> set vs} = Some -` set vs" by auto
  then show ?thesis by (simp add: finite_vimageI)
qed

lemma defined_Cons_None: "{v. Some v \<in> set (None # vs)} = {v. Some v \<in> set vs}"
  by auto

lemma defined_Cons_Some: "{v. Some v \<in> set (Some x # vs)} = insert x {v. Some v \<in> set vs}"
  by auto

lemma Min_insert_min:
  assumes "finite S"
  shows "Min (insert (min a x) S) = Min (insert a (insert x S))"
proof (cases "S = {}")
  case True
  then show ?thesis by (simp add: min.commute)
next
  case False
  with assms show ?thesis by (simp add: min.assoc)
qed

lemma Max_insert_max:
  assumes "finite S"
  shows "Max (insert (max a x) S) = Max (insert a (insert x S))"
proof (cases "S = {}")
  case True
  then show ?thesis by (simp add: max.commute)
next
  case False
  with assms show ?thesis by (simp add: max.assoc)
qed

lemma min_step_simps [simp]:
  "min_step None m = m" "min_step (Some w) None = Some w"
  "min_step (Some w) (Some a) = Some (min a w)"
  by (auto simp: min_step_def min_def split: option.splits)

lemma max_step_simps [simp]:
  "max_step None m = m" "max_step (Some w) None = Some w"
  "max_step (Some w) (Some a) = Some (max a w)"
  by (auto simp: max_step_def max_def split: option.splits)

lemma fold_min_Some:
  "fold min_step vs (Some a) = Some (Min (insert a {v. Some v \<in> set vs}))"
proof (induction vs arbitrary: a)
  case Nil
  then show ?case by simp
next
  case (Cons w vs)
  show ?case
  proof (cases w)
    case None
    with Cons show ?thesis by (simp add: defined_Cons_None)
  next
    case (Some x)
    have "fold min_step (w # vs) (Some a) = Some (Min (insert (min a x) {v. Some v \<in> set vs}))"
      using Cons [of "min a x"] Some by simp
    then show ?thesis
      unfolding Some defined_Cons_Some by (simp only: Min_insert_min [OF finite_defined])
  qed
qed

lemma fold_max_Some:
  "fold max_step vs (Some a) = Some (Max (insert a {v. Some v \<in> set vs}))"
proof (induction vs arbitrary: a)
  case Nil
  then show ?case by simp
next
  case (Cons w vs)
  show ?case
  proof (cases w)
    case None
    with Cons show ?thesis by (simp add: defined_Cons_None)
  next
    case (Some x)
    have "fold max_step (w # vs) (Some a) = Some (Max (insert (max a x) {v. Some v \<in> set vs}))"
      using Cons [of "max a x"] Some by simp
    then show ?thesis
      unfolding Some defined_Cons_Some by (simp only: Max_insert_max [OF finite_defined])
  qed
qed

lemma d3_min_eq:
  "d3_min vs = (if {v. Some v \<in> set vs} = {} then None else Some (Min {v. Some v \<in> set vs}))"
proof (induction vs)
  case Nil
  then show ?case by (simp add: d3_min_def)
next
  case (Cons w vs)
  show ?case
  proof (cases w)
    case None
    with Cons show ?thesis by (simp add: d3_min_def defined_Cons_None)
  next
    case (Some x)
    have "d3_min (w # vs) = Some (Min (insert x {v. Some v \<in> set vs}))"
      using fold_min_Some [of vs x] Some by (simp add: d3_min_def)
    then show ?thesis
      unfolding Some defined_Cons_Some by simp
  qed
qed

lemma d3_max_eq:
  "d3_max vs = (if {v. Some v \<in> set vs} = {} then None else Some (Max {v. Some v \<in> set vs}))"
proof (induction vs)
  case Nil
  then show ?case by (simp add: d3_max_def)
next
  case (Cons w vs)
  show ?case
  proof (cases w)
    case None
    with Cons show ?thesis by (simp add: d3_max_def defined_Cons_None)
  next
    case (Some x)
    have "d3_max (w # vs) = Some (Max (insert x {v. Some v \<in> set vs}))"
      using fold_max_Some [of vs x] Some by (simp add: d3_max_def)
    then show ?thesis
      unfolding Some defined_Cons_Some by simp
  qed
qed

lemma defined_map: "{v. Some v \<in> set (map f ps)} = {v. \<exists>p \<in> set ps. f p = Some v}"
  by (force simp: image_iff)

lemma defined_map_Some: "{v. Some v \<in> set (map (\<lambda>p. Some (f p)) ps)} = f ` set ps"
  by auto

lemma y_low_Some:
  "(y_low p = Some v) = (\<exists>b. pt_y0 p = Some b \<and> v = (if pt_y p < 0 then pt_y p + b else b))"
  by (cases "pt_y0 p") (auto simp: y_low_def)

lemma y_high_Some:
  "(y_high p = Some v) = (\<exists>b. pt_y0 p = Some b \<and> v = (if pt_y p > 0 then pt_y p + b else b))"
  by (cases "pt_y0 p") (auto simp: y_high_def)

lemma flattened_offsets_defined:
  assumes vis: "visible_layers c = first # rest"
      and eq: "\<forall>l \<in> set rest. length (layer_values l) = length (layer_values first)"
      and f: "flattenStack c = Inr ps" and p: "p \<in> set ps"
  shows "\<exists>b. pt_y0 p = Some b"
proof -
  let ?layers = "first # rest"
  have long: "\<forall>l \<in> set rest. length (layer_values first) \<le> length (layer_values l)"
    using eq by simp
  from data_stacked_values [OF vis long] obtain cols ls where
    d: "data c = Inr ls" and len: "length ls = Suc (length rest)" and
    st: "\<forall>i < Suc (length rest).
           layer_values (ls ! i) = layer_values (?layers ! i) \<and>
           domainValues (ls ! i) = domainValues (?layers ! i) \<and>
           (\<forall>k < length (layer_values (?layers ! i)).
              values_of (ls ! i) ! k =
                (if k < length (layer_values first)
                 then (values_of (?layers ! i) ! k)
                   \<lparr>pt_y0 := Some (\<Sum>j<i. stackValue (cols ! k) (map sd_name ?layers ! j)),
                    pt_y1 := Some (\<Sum>j<Suc i. stackValue (cols ! k) (map sd_name ?layers ! j))\<rparr>
                 else values_of (?layers ! i) ! k))"
    by blast
  from f d have "ps = concat (map domainValues_of ls)"
    by (simp add: flattenStack_def)
  with p obtain l where l: "l \<in> set ls" and pl: "p \<in> set (domainValues_of l)"
    by auto
  from l obtain i where i: "i < length ls" and li: "l = ls ! i"
    by (auto simp: in_set_conv_nth)
  from i len have i': "i < Suc (length rest)" by simp
  from pl obtain a where a: "a \<in> set (domainValues (ls ! i))" and pa: "p = allValues (ls ! i) ! a"
    unfolding li domainValues_of_def by auto
  have mem: "?layers ! i \<in> set (visible_layers c)"
    unfolding vis using i' by (intro nth_mem) simp
  from a st i' have "a \<in> set (domainValues (?layers ! i))" by simp
  with visible_layers_invariant(3) [OF mem] have "a \<in> set (layer_values (?layers ! i))"
    by auto
  then obtain k where k: "k < length (layer_values (?layers ! i))"
    and ak: "a = layer_values (?layers ! i) ! k"
    by (auto simp: in_set_conv_nth)
  have km: "k < length (layer_values first)"
  proof (cases i)
    case 0
    with k show ?thesis by simp
  next
    case (Suc i')
    with i' have "rest ! i' \<in> set rest" by simp
    with eq k Suc show ?thesis by simp
  qed
  have "values_of (ls ! i) ! k = p"
    using st i' k ak pa by (simp add: values_of_def)
  moreover have "pt_y0 (values_of (ls ! i) ! k) =
      Some (\<Sum>j<i. stackValue (cols ! k) (map sd_name ?layers ! j))"
    using st i' k km by simp
  ultimately show ?thesis by auto
qed

lemma extents_of_points:
  assumes "flattenStack c = Inr ps"
  shows "yAxisMin c =
           Inr (if {if pt_y p < 0 then pt_y p + b else b | p b. p \<in> set ps \<and> pt_y0 p = Some b} = {}
                then None
                else Some (Min {if pt_y p < 0 then pt_y p + b else b | p b.
                                  p \<in> set ps \<and> pt_y0 p = Some b} - yAxisPadding c)) \<and>
         yAxisMax c =
           Inr (if {if pt_y p > 0 then pt_y p + b else b | p b. p \<in> set ps \<and> pt_y0 p = Some b} = {}
                then None
                else Some (Max {if pt_y p > 0 then pt_y p + b else b | p b.
                                  p \<in> set ps \<and> pt_y0 p = Some b} + yAxisPadding c)) \<and>
         xAxisMin c = Inr (if ps = [] then None else Some (Min (pt_x ` set ps) - xAxisPadding c)) \<and>
         xAxisMax c = Inr (if ps = [] then None else Some (Max (pt_x ` set ps) + xAxisPadding c))"
proof -
  have lo: "{v. Some v \<in> set (map y_low ps)} =
      {if pt_y p < 0 then pt_y p + b else b | p b. p \<in> set ps \<and> pt_y0 p = Some b}"
    unfolding defined_map by (auto simp: y_low_Some)
  have hi: "{v. Some v \<in> set (map y_high ps)} =
      {if pt_y p > 0 then pt_y p + b else b | p b. p \<in> set ps \<and> pt_y0 p = Some b}"
    unfolding defined_map by (auto simp: y_high_Some)
  have dlo: "d3_min (map y_low ps) =
      (if {if pt_y p < 0 then pt_y p + b else b | p b. p \<in> set ps \<and> pt_y0 p = Some b} = {}
       then None
       else Some (Min {if pt_y p < 0 then pt_y p + b else b | p b.
                         p \<in> set ps \<and> pt_y0 p = Some b}))"
    using d3_min_eq [of "map y_low ps"] unfolding lo .
  have dhi: "d3_max (map y_high ps) =
      (if {if pt_y p > 0 then pt_y p + b else b | p b. p \<in> set ps \<and> pt_y0 p = Some b} = {}
       then None
       else Some (Max {if pt_y p > 0 then pt_y p + b else b | p b.
                         p \<in> set ps \<and> pt_y0 p = Some b}))"
    using d3_max_eq [of "map y_high ps"] unfolding hi .
  have dxl: "d3_min (map (\<lambda>p. Some (pt_x p)) ps) =
      (if ps = [] then None else Some (Min (pt_x ` set ps)))"
    using d3_min_eq [of "map (\<lambda>p. Some (pt_x p)) ps"] unfolding defined_map_Some by simp
  have dxh: "d3_max (map (\<lambda>p. Some (pt_x p)) ps) =
      (if ps = [] then None else Some (Max (pt_x ` set ps)))"
    using d3_max_eq [of "map (\<lambda>p. Some (pt_x p)) ps"] unfolding defined_map_Some by simp
  have ymin: "yAxisMin c =
           Inr (if {if pt_y p < 0 then pt_y p + b else b | p b. p \<in> set ps \<and> pt_y0 p = Some b} = {}
                then None
                else Some (Min {if pt_y p < 0 then pt_y p + b else b | p b.
                                  p \<in> set ps \<and> pt_y0 p = Some b} - yAxisPadding c))"
    by (simp add: yAxisMin_def assms dlo utils_subtract_def)
  have ymax: "yAxisMax c =
           Inr (if {if pt_y p > 0 then pt_y p + b else b | p b. p \<in> set ps \<and> pt_y0 p = Some b} = {}
                then None
                else Some (Max {if pt_y p > 0 then pt_y p + b else b | p b.
                                  p \<in> set ps \<and> pt_y0 p = Some b} + yAxisPadding c))"
    by (simp add: yAxisMax_def assms dhi utils_add_def)
  have xmin: "xAxisMin c = Inr (if ps = [] then None else Some (Min (pt_x ` set ps) - xAxisPadding c))"
    by (simp add: xAxisMin_def assms dxl utils_subtract_def)
  have xmax: "xAxisMax c = Inr (if ps = [] then None else Some (Max (pt_x ` set ps) + xAxisPadding c))"
    by (simp add: xAxisMax_def assms dxh utils_add_def)
  from ymin ymax xmin xmax show ?thesis by (intro conjI)
qed

lemma domainFilter_pt_x: "pt_x p = pt_x q \<Longrightarrow> domainFilter c p = domainFilter c q"
  by (simp add: domainFilter_def split: option.splits list.splits)

lemma data_result_points:
  assumes d: "data c = Inr ls" and i: "i < length ls"
  shows "domainValues (ls ! i) = domainValues (visible_layers c ! i) \<and>
         length (allValues (ls ! i)) = length (allValues (visible_layers c ! i)) \<and>
         (\<forall>a. pt_x (allValues (ls ! i) ! a) = pt_x (allValues (visible_layers c ! i) ! a) \<and>
              pt_y (allValues (ls ! i) ! a) = pt_y (allValues (visible_layers c ! i) ! a) \<and>
              pt_data (allValues (ls ! i) ! a) = pt_data (allValues (visible_layers c ! i) ! a) \<and>
              pt_name (allValues (ls ! i) ! a) = pt_name (allValues (visible_layers c ! i) ! a))"
proof -
  obtain first rest where vis: "visible_layers c = first # rest"
    using d i data_empty [of c] by (cases "visible_layers c") auto
  note long = data_Inr_long [OF vis d]
  from data_stacked [OF vis long] d obtain cols where
    len: "length ls = Suc (length rest)" and
    w: "\<forall>i < Suc (length rest).
          write_series (d3_stack (map sd_name (first # rest)) cols ! i) 0 ((first # rest) ! i)
            = Inr (ls ! i)"
    by auto
  from i len w have ws:
    "write_series (d3_stack (map sd_name (first # rest)) cols ! i) 0 ((first # rest) ! i)
       = Inr (ls ! i)"
    by simp
  from write_series_fields [OF ws] write_series_keeps [OF ws] show ?thesis
    unfolding vis by simp
qed

lemma data_result_domainValues:
  assumes d: "data c = Inr ls" and i: "i < length ls"
  shows "domainValues_of (ls ! i) = filter (domainFilter c) (allValues (ls ! i))"
proof -
  note r = data_result_points [OF d i]
  have "visible_layers c ! i \<in> set (visible_layers c)"
    using i data_result_length [OF d] by simp
  then obtain l0 where l0: "visible_layers c ! i = prepareValues c l0"
    by (auto simp: visible_layers_def)
  have "domainValues (ls ! i) =
      filter (\<lambda>a. domainFilter c (allValues (visible_layers c ! i) ! a))
        [0..<length (allValues (visible_layers c ! i))]"
    using r unfolding l0 by (simp add: domainValues_prepareValues)
  also have "\<dots> = filter (\<lambda>a. domainFilter c (allValues (ls ! i) ! a))
        [0..<length (allValues (ls ! i))]"
    using r by (auto intro!: filter_cong domainFilter_pt_x)
  finally show ?thesis
    unfolding domainValues_of_def by (simp only: map_nth_filter_upt)
qed

lemma data_result_xy:
  assumes d: "data c = Inr ls" and i: "i < length ls"
  shows "map pt_x (allValues (ls ! i)) = map pt_x (allValues (visible_layers c ! i))"
    and "map pt_y (allValues (ls ! i)) = map pt_y (allValues (visible_layers c ! i))"
  using data_result_points [OF d i] by (auto intro!: nth_equalityI)

lemma extent_value:
  "(Inr (if S then None else Some e) :: js_error + int option) = Inr (Some v) \<Longrightarrow> e = v"
  by (simp split: if_splits)

text \<open>
  C5: a pass that completes returns every visible layer, and the \<open>domainValues\<close> of each
  are its extracted points that pass the domain filter, whatever the evade flag.
  \<^verbatim>\<open>_flattenStack\<close> is the concatenation \<open>ps\<close> of these lists. \<^verbatim>\<open>yAxisMin\<close> is the minimum of
  \<open>y < 0 ? y + y0 : y0\<close> minus the y padding and \<^verbatim>\<open>yAxisMax\<close> the maximum of
  \<open>y > 0 ? y + y0 : y0\<close> plus the y padding, both taken over the points of \<open>ps\<close> that carry
  a \<open>y0\<close> (for a point without one the expression is not a number, and d3 skips it; when
  all visible layers have as many points as the first, every point carries one, by
  \<open>flattened_offsets_defined\<close>); \<^verbatim>\<open>xAxisMin\<close> is the minimum of \<open>x\<close> over \<open>ps\<close> minus the x
  padding and \<^verbatim>\<open>xAxisMax\<close> the maximum of \<open>x\<close> plus the x padding. Where there is nothing
  to take the minimum of, the extent is not a number.
\<close>

theorem axis_extents:
  assumes d: "data c = Inr ls" and ps: "ps = concat (map domainValues_of ls)"
  shows "length ls = length (visible_layers c) \<and>
         (\<forall>i < length ls.
            domainValues_of (ls ! i) = filter (domainFilter c) (allValues (ls ! i)) \<and>
            map pt_x (allValues (ls ! i)) = map pt_x (allValues (visible_layers c ! i)) \<and>
            map pt_y (allValues (ls ! i)) = map pt_y (allValues (visible_layers c ! i))) \<and>
         flattenStack c = Inr ps \<and>
         yAxisMin c =
           Inr (if {if pt_y p < 0 then pt_y p + b else b | p b. p \<in> set ps \<and> pt_y0 p = Some b} = {}
                then None
                else Some (Min {if pt_y p < 0 then pt_y p + b else b | p b.
                                  p \<in> set ps \<and> pt_y0 p = Some b} - yAxisPadding c)) \<and>
         yAxisMax c =
           Inr (if {if pt_y p > 0 then pt_y p + b else b | p b. p \<in> set ps \<and> pt_y0 p = Some b} = {}
                then None
                else Some (Max {if pt_y p > 0 then pt_y p + b else b | p b.
                                  p \<in> set ps \<and> pt_y0 p = Some b} + yAxisPadding c)) \<and>
         xAxisMin c = Inr (if ps = [] then None else Some (Min (pt_x ` set ps) - xAxisPadding c)) \<and>
         xAxisMax c = Inr (if ps = [] then None else Some (Max (pt_x ` set ps) + xAxisPadding c))"
proof -
  have f: "flattenStack c = Inr ps"
    using d ps by (simp add: flattenStack_def)
  have layers: "\<forall>i < length ls.
            domainValues_of (ls ! i) = filter (domainFilter c) (allValues (ls ! i)) \<and>
            map pt_x (allValues (ls ! i)) = map pt_x (allValues (visible_layers c ! i)) \<and>
            map pt_y (allValues (ls ! i)) = map pt_y (allValues (visible_layers c ! i))"
    using data_result_domainValues [OF d] data_result_xy [OF d] by blast
  from data_result_length [OF d] layers f extents_of_points [OF f] show ?thesis
    by (intro conjI) blast+
qed

theorem axis_extents_witness:
  "data evading_chart = Inr (stacked_result evading_chart) \<and>
   length (stacked_result evading_chart) = 2 \<and>
   map pt_x (concat (map domainValues_of (stacked_result evading_chart))) = [1, 2, 1, 2] \<and>
   map pt_x (concat (map values_of (stacked_result evading_chart))) = [0, 1, 2, 5, 0, 1, 2, 5] \<and>
   flattenStack evading_chart = Inr (concat (map domainValues_of (stacked_result evading_chart))) \<and>
   domainValues_of (stacked_result evading_chart ! 1) =
     filter (domainFilter evading_chart) (allValues (stacked_result evading_chart ! 1)) \<and>
   yAxisMin evading_chart = Inr (Some (- 22)) \<and> yAxisMax evading_chart = Inr (Some 17) \<and>
   xAxisMin evading_chart = Inr (Some 0) \<and> xAxisMax evading_chart = Inr (Some 3) \<and>
   Min {if pt_y p < 0 then pt_y p + b else b | p b.
          p \<in> set (concat (map domainValues_of (stacked_result evading_chart))) \<and>
          pt_y0 p = Some b} - yAxisPadding evading_chart = - 22 \<and>
   Max {if pt_y p > 0 then pt_y p + b else b | p b.
          p \<in> set (concat (map domainValues_of (stacked_result evading_chart))) \<and>
          pt_y0 p = Some b} + yAxisPadding evading_chart = 17 \<and>
   Min (pt_x ` set (concat (map domainValues_of (stacked_result evading_chart)))) -
     xAxisPadding evading_chart = 0 \<and>
   Max (pt_x ` set (concat (map domainValues_of (stacked_result evading_chart)))) +
     xAxisPadding evading_chart = 3"
proof -
  let ?ls = "stacked_result evading_chart"
  let ?ps = "concat (map domainValues_of ?ls)"
  let ?lo = "{if pt_y p < 0 then pt_y p + b else b | p b. p \<in> set ?ps \<and> pt_y0 p = Some b}"
  let ?hi = "{if pt_y p > 0 then pt_y p + b else b | p b. p \<in> set ?ps \<and> pt_y0 p = Some b}"
  have "\<not> isl (data evading_chart)" by code_simp
  then have d: "data evading_chart = Inr ?ls"
    by (rule data_stacked_result)
  have len: "length ?ls = 2" by code_simp
  have xs: "map pt_x ?ps = [1, 2, 1, 2]" by code_simp
  have vxs: "map pt_x (concat (map values_of ?ls)) = [0, 1, 2, 5, 0, 1, 2, 5]" by code_simp
  have v: "yAxisMin evading_chart = Inr (Some (- 22))" "yAxisMax evading_chart = Inr (Some 17)"
    "xAxisMin evading_chart = Inr (Some 0)" "xAxisMax evading_chart = Inr (Some 3)"
    by code_simp+
  note ax = axis_extents [OF d refl]
  from ax have f: "flattenStack evading_chart = Inr ?ps" by blast
  from ax len have dv: "domainValues_of (?ls ! 1) =
     filter (domainFilter evading_chart) (allValues (?ls ! 1))"
    by simp
  from ax have "yAxisMin evading_chart =
      Inr (if ?lo = {} then None else Some (Min ?lo - yAxisPadding evading_chart))"
    by blast
  then have "Inr (if ?lo = {} then None else Some (Min ?lo - yAxisPadding evading_chart)) =
      (Inr (Some (- 22)) :: js_error + int option)"
    unfolding v by (rule sym)
  then have a1: "Min ?lo - yAxisPadding evading_chart = - 22"
    by (rule extent_value)
  from ax have "yAxisMax evading_chart =
      Inr (if ?hi = {} then None else Some (Max ?hi + yAxisPadding evading_chart))"
    by blast
  then have "Inr (if ?hi = {} then None else Some (Max ?hi + yAxisPadding evading_chart)) =
      (Inr (Some 17) :: js_error + int option)"
    unfolding v by (rule sym)
  then have a2: "Max ?hi + yAxisPadding evading_chart = 17"
    by (rule extent_value)
  from ax have "xAxisMin evading_chart =
      Inr (if ?ps = [] then None else Some (Min (pt_x ` set ?ps) - xAxisPadding evading_chart))"
    by blast
  then have "Inr (if ?ps = [] then None
                  else Some (Min (pt_x ` set ?ps) - xAxisPadding evading_chart)) =
      (Inr (Some 0) :: js_error + int option)"
    unfolding v by (rule sym)
  then have a3: "Min (pt_x ` set ?ps) - xAxisPadding evading_chart = 0"
    by (rule extent_value)
  from ax have "xAxisMax evading_chart =
      Inr (if ?ps = [] then None else Some (Max (pt_x ` set ?ps) + xAxisPadding evading_chart))"
    by blast
  then have "Inr (if ?ps = [] then None
                  else Some (Max (pt_x ` set ?ps) + xAxisPadding evading_chart)) =
      (Inr (Some 3) :: js_error + int option)"
    unfolding v by (rule sym)
  then have a4: "Max (pt_x ` set ?ps) + xAxisPadding evading_chart = 3"
    by (rule extent_value)
  from d len xs vxs f dv v a1 a2 a3 a4 show ?thesis
    by (intro conjI)
qed

text \<open>
  The concrete scenario of the specification: \<open>A\<close> is stacked on 0 and \<open>B\<close> on \<open>A\<close>, and the
  extents are 0 to 35 in \<open>y\<close> and 1 to 2 in \<open>x\<close>.
\<close>

lemma concrete_scenario:
  "map_sum id (map offsets_of) (data two_layers) =
     Inr [[(Some 0, Some 10), (Some 0, Some 20)], [(Some 10, Some 15), (Some 20, Some 35)]]"
  "yAxisMin two_layers = Inr (Some 0)" "yAxisMax two_layers = Inr (Some 35)"
  "xAxisMin two_layers = Inr (Some 1)" "xAxisMax two_layers = Inr (Some 2)"
  by code_simp+

end
